theory Spec2Isabelle
  imports Complex_Main
begin

section \<open>JavaScript values read by the upload routes\<close>

text \<open>
  The request bodies and the AI service's answers arrive as parsed JSON. A JavaScript
  value of the routes (type \<open>any\<close>) is a JSON value or \<open>undefined\<close>; \<open>undefined\<close> is
  \<open>None\<close>. A parsed object is the list of its own properties (keys distinct, as
  \<open>JSON.parse\<close> leaves them).
\<close>

datatype json =
    JNull
  | JBool bool
  | JNum real
  | JStr string
  | JArr "json list"
  | JObj "(string \<times> json) list"

type_synonym jsval = "json option"

text \<open>An exception of the runtime: its \<open>name\<close> and its \<open>message\<close>.\<close>

datatype jserror = JsError (err_name: string) (err_message: string)

definition TypeError :: "string \<Rightarrow> jserror" where
  "TypeError msg = JsError ''TypeError'' msg"

text \<open>Truthiness, as \<open>!x\<close>, \<open>x || y\<close> and \<open>if (x)\<close> test it.\<close>

fun truthy :: "jsval \<Rightarrow> bool" where
  "truthy None = False"
| "truthy (Some JNull) = False"
| "truthy (Some (JBool b)) = b"
| "truthy (Some (JNum n)) = (n \<noteq> 0)"
| "truthy (Some (JStr s)) = (s \<noteq> [])"
| "truthy (Some (JArr xs)) = True"
| "truthy (Some (JObj kvs)) = True"

text \<open>\<open>a || b\<close>: the left operand when it is truthy, the right one otherwise.\<close>

definition js_or :: "jsval \<Rightarrow> jsval \<Rightarrow> jsval" where
  "js_or a b = (if truthy a then a else b)"

text \<open>
  \<open>x.k\<close>: reading a property of \<open>null\<close> or \<open>undefined\<close> throws a TypeError; an object
  gives its own property or \<open>undefined\<close>. The property names the routes read from
  untyped values (\<open>start\<close>, \<open>startTime\<close>, \<open>end\<close>, \<open>endTime\<close>, \<open>title\<close>, \<open>name\<close>,
  \<open>summary\<close>, \<open>data\<close>, \<open>task_id\<close>, \<open>status\<close>) are not properties of booleans, numbers,
  strings or arrays, so those give \<open>undefined\<close>.
\<close>

fun getProp :: "jsval \<Rightarrow> string \<Rightarrow> jserror + jsval" where
  "getProp None k = Inl (TypeError ''Cannot read properties of undefined'')"
| "getProp (Some JNull) k = Inl (TypeError ''Cannot read properties of null'')"
| "getProp (Some (JObj kvs)) k = Inr (map_of kvs k)"
| "getProp (Some v) k = Inr None"

text \<open>\<open>x?.k\<close>: \<open>undefined\<close> on \<open>null\<close> and \<open>undefined\<close>, the property otherwise.\<close>

fun optProp :: "jsval \<Rightarrow> string \<Rightarrow> jsval" where
  "optProp (Some (JObj kvs)) k = map_of kvs k"
| "optProp v k = None"

text \<open>
  \<open>`${x}`\<close>: the conversion of a value to a string, as a template literal does it,
  throws a TypeError ("Cannot convert object to primitive value") exactly in these
  cases. A parsed object with an own property \<open>toString\<close> hides
  \<open>Object.prototype.toString\<close> behind a value that is not callable, and \<open>valueOf\<close>
  gives no primitive; without it the object becomes \<open>[object Object]\<close>. An array is
  joined, which converts each element that is not \<open>null\<close>. \<open>undefined\<close>, \<open>null\<close>,
  booleans, numbers and strings convert.
\<close>

fun toStringThrows :: "json \<Rightarrow> bool" where
  "toStringThrows (JObj kvs) = (map_of kvs ''toString'' \<noteq> None)"
| "toStringThrows (JArr xs) = (\<exists>x \<in> set xs. toStringThrows x)"
| "toStringThrows v = False"

definition templateThrows :: "jsval \<Rightarrow> bool" where
  "templateThrows x = (case x of None \<Rightarrow> False | Some v \<Rightarrow> toStringThrows v)"

definition notPrimitive :: jserror where
  "notPrimitive = TypeError ''Cannot convert object to primitive value''"

section \<open>Segments and their normalisation\<close>

text \<open>
  The record built by the arrow function of \<open>segments.map\<close> in
  \<open>updateLectureWithSegments\<close>. The field \<open>end\<close> of the source is \<open>end_\<close> here.
  Each field holds the value the \<open>||\<close> chain selected, which is never \<open>undefined\<close>
  because the last operand is a literal.
\<close>

record segment =
  start :: json
  end_ :: json
  title :: json
  summary :: json

text \<open>\<open>a || d\<close> with a literal \<open>d\<close>: never \<open>undefined\<close>.\<close>

definition orDefault :: "jsval \<Rightarrow> json \<Rightarrow> json" where
  "orDefault a d = (case js_or a (Some d) of Some v \<Rightarrow> v | None \<Rightarrow> d)"

text \<open>
  \<open>{ start: seg.start || seg.startTime || 0, end: seg.end || seg.endTime || 0,
      title: seg.title || seg.name || 'Untitled Segment', summary: seg.summary || '' }\<close>
  The first property read throws when \<open>seg\<close> is \<open>null\<close>; after it succeeded the
  other reads cannot throw.
\<close>

definition normalizeSegment :: "json \<Rightarrow> jserror + segment" where
  "normalizeSegment seg =
     (case getProp (Some seg) ''start'' of
        Inl e \<Rightarrow> Inl e
      | Inr s \<Rightarrow>
          Inr \<lparr> start = orDefault (js_or s (optProp (Some seg) ''startTime'')) (JNum 0),
                end_ = orDefault (js_or (optProp (Some seg) ''end'') (optProp (Some seg) ''endTime'')) (JNum 0),
                title = orDefault (js_or (optProp (Some seg) ''title'') (optProp (Some seg) ''name''))
                          (JStr ''Untitled Segment''),
                summary = orDefault (optProp (Some seg) ''summary'') (JStr '''') \<rparr>)"

text \<open>\<open>Array.prototype.map\<close> with a callback that may throw: the first throw ends it.\<close>

fun mapThrowing :: "('a \<Rightarrow> jserror + 'b) \<Rightarrow> 'a list \<Rightarrow> jserror + 'b list" where
  "mapThrowing f [] = Inr []"
| "mapThrowing f (x # xs) =
     (case f x of
        Inl e \<Rightarrow> Inl e
      | Inr y \<Rightarrow> (case mapThrowing f xs of Inl e \<Rightarrow> Inl e | Inr ys \<Rightarrow> Inr (y # ys)))"

text \<open>
  \<open>segments.map(...)\<close> on the value the caller passed: an array is mapped; on
  \<open>undefined\<close> and \<open>null\<close> the property read throws, on any other value \<open>map\<close> is not
  a function.
\<close>

fun transformSegments :: "jsval \<Rightarrow> jserror + segment list" where
  "transformSegments (Some (JArr segs)) = mapThrowing normalizeSegment segs"
| "transformSegments None = Inl (TypeError ''Cannot read properties of undefined'')"
| "transformSegments (Some JNull) = Inl (TypeError ''Cannot read properties of null'')"
| "transformSegments (Some v) = Inl (TypeError ''segments.map is not a function'')"

text \<open>
  Inputs for the normalisation claims: a segment object built from four values, a
  property being present exactly when its value is not \<open>undefined\<close>, once under the
  canonical names and once under the alternate ones.
\<close>

fun mkObj :: "(string \<times> jsval) list \<Rightarrow> (string \<times> json) list" where
  "mkObj [] = []"
| "mkObj ((k, None) # kvs) = mkObj kvs"
| "mkObj ((k, Some v) # kvs) = (k, v) # mkObj kvs"

type_synonym segvals = "jsval \<times> jsval \<times> jsval \<times> jsval"

fun canonicalSeg :: "segvals \<Rightarrow> json" where
  "canonicalSeg (s, e, t, m) =
     JObj (mkObj [(''start'', s), (''end'', e), (''title'', t), (''summary'', m)])"

fun alternateSeg :: "segvals \<Rightarrow> json" where
  "alternateSeg (s, e, t, m) =
     JObj (mkObj [(''startTime'', s), (''endTime'', e), (''name'', t), (''summary'', m)])"

fun normalForm :: "segvals \<Rightarrow> segment" where
  "normalForm (s, e, t, m) =
     \<lparr> start = orDefault s (JNum 0), end_ = orDefault e (JNum 0),
       title = orDefault t (JStr ''Untitled Segment''), summary = orDefault m (JStr '''') \<rparr>"

section \<open>The document store\<close>

text \<open>
  The documents the upload routes read and write. A lecture is embedded in a Course
  document and in a Lecturer document. The field \<open>courseId\<close> of a lecture is
  \<open>lectureCourseId\<close> here, and the \<open>lectures\<close> array of a Lecturer is
  \<open>lecturerLectures\<close>. \<open>lectureSegments\<close> is \<open>None\<close> when the field holds \<open>undefined\<close>.
\<close>

record lecture =
  lectureId :: string
  lectureTitle :: string
  lectureCourseId :: string
  videoUrl :: string
  createdAt :: nat
  studentRewindEvents :: "json list"
  lectureSegments :: "segment list option"
  rawAiMetaData :: json

record course =
  courseId :: string
  courseName :: string
  instructorId :: string
  lectures :: "lecture list"

record lecturer =
  userId :: string
  lecturerLectures :: "lecture list"

record db =
  courses :: "course list"
  lecturers :: "lecturer list"

text \<open>
  What leaves the process, in order: a document saved (by its position in its
  collection), a Lecturer document created, a URL signed, the segmentation request
  sent to the AI service without being awaited.
\<close>

datatype s3command =
    PutObjectCommand "string option" string string
  | GetObjectCommand "string option" string

record presigned =
  command :: s3command
  expiresIn :: nat

datatype event =
    CourseSaved nat
  | LecturerSaved nat
  | LecturerCreated
  | UrlSigned presigned
  | SegmentationRequested json

type_synonym world = "db \<times> event list"

text \<open>
  The store's operations are calls into a library and may reject. Which of them
  rejects is given from outside: \<open>failing\<close> maps an operation to the error it throws.
  \<open>readyState\<close> is \<open>mongoose.connection.readyState\<close> on entry, \<open>connectDB_error\<close>
  the error \<open>connectDB()\<close> throws, \<open>readyStateAfter\<close> the state once it returned.
\<close>

datatype dbop =
    CourseFindOne
  | CourseSave nat
  | LecturerFind
  | LecturerFindOne
  | LecturerSave nat
  | LecturerInsert

record dbenv =
  readyState :: nat
  connectDB_error :: "jserror option"
  readyStateAfter :: nat
  failing :: "dbop \<Rightarrow> jserror option"

definition CONNECTED_STATE :: nat where
  "CONNECTED_STATE = 1"

text \<open>\<open>xs.findIndex(p)\<close>; the source's \<open>-1\<close> is \<open>None\<close>.\<close>

fun findIndex :: "('a \<Rightarrow> bool) \<Rightarrow> 'a list \<Rightarrow> nat option" where
  "findIndex p [] = None"
| "findIndex p (x # xs) = (if p x then Some 0 else map_option Suc (findIndex p xs))"

text \<open>\<open>Model.findOne(filter)\<close>: the first matching document, with its position.\<close>

definition findOne :: "('a \<Rightarrow> bool) \<Rightarrow> 'a list \<Rightarrow> (nat \<times> 'a) option" where
  "findOne p xs = (case findIndex p xs of None \<Rightarrow> None | Some i \<Rightarrow> Some (i, xs ! i))"

text \<open>\<open>Model.find(filter)\<close>: every matching document, with its position, in order.\<close>

definition findAll :: "('a \<Rightarrow> bool) \<Rightarrow> 'a list \<Rightarrow> (nat \<times> 'a) list" where
  "findAll p xs = map (\<lambda>i. (i, xs ! i)) (filter (\<lambda>i. p (xs ! i)) [0..<length xs])"

text \<open>The lecture a reader finds under an id: \<open>lectures.find(l => l.lectureId === lid)\<close>.\<close>

definition lookupLecture :: "string \<Rightarrow> lecture list \<Rightarrow> lecture option" where
  "lookupLecture lid ls = map_option (\<lambda>i. ls ! i) (findIndex (\<lambda>l. lectureId l = lid) ls)"

definition hasLecture :: "string \<Rightarrow> lecture list \<Rightarrow> bool" where
  "hasLecture lid ls = (findIndex (\<lambda>l. lectureId l = lid) ls \<noteq> None)"

section \<open>The segment persistence updater\<close>

text \<open>
  \<open>lectures[lectureIndex].lectureSegments = lectureSegments;
    lectures[lectureIndex].rawAiMetaData = fullAiData || {}\<close>
\<close>

definition setSegments :: "segment list \<Rightarrow> jsval \<Rightarrow> lecture \<Rightarrow> lecture" where
  "setSegments segs fullAiData l =
     l\<lparr> lectureSegments := Some segs, rawAiMetaData := orDefault fullAiData (JObj []) \<rparr>"

text \<open>
  The "Update Course" block. The course id of the webhook body may be \<open>undefined\<close>,
  which matches no stored course. A throw leaves the world as it was at the throw.
\<close>

definition updateCourseSegments ::
  "(dbop \<Rightarrow> jserror option) \<Rightarrow> string \<Rightarrow> string option \<Rightarrow> segment list \<Rightarrow> jsval \<Rightarrow>
   world \<Rightarrow> world \<times> jserror option" where
  "updateCourseSegments fl lid cid segs fullAiData w =
     (case fl CourseFindOne of
        Some e \<Rightarrow> (w, Some e)
      | None \<Rightarrow>
          (case findOne (\<lambda>c. Some (courseId c) = cid) (courses (fst w)) of
             None \<Rightarrow> (w, None)
           | Some (ci, c) \<Rightarrow>
               (case findIndex (\<lambda>l. lectureId l = lid) (lectures c) of
                  None \<Rightarrow> (w, None)
                | Some li \<Rightarrow>
                    (case fl (CourseSave ci) of
                       Some e \<Rightarrow> (w, Some e)
                     | None \<Rightarrow>
                         (((fst w)\<lparr> courses := (courses (fst w))
                              [ci := c\<lparr> lectures := (lectures c)
                                 [li := setSegments segs fullAiData (lectures c ! li)] \<rparr>] \<rparr>,
                           snd w @ [CourseSaved ci]), None)))))"

text \<open>
  The \<open>for (const lecturer of lecturers)\<close> loop over the documents \<open>Lecturer.find\<close>
  returned; each \<open>await lecturer.save()\<close> completes before the next iteration.
\<close>

fun updateLecturerSegments ::
  "(dbop \<Rightarrow> jserror option) \<Rightarrow> string \<Rightarrow> segment list \<Rightarrow> jsval \<Rightarrow>
   (nat \<times> lecturer) list \<Rightarrow> world \<Rightarrow> world \<times> jserror option" where
  "updateLecturerSegments fl lid segs fullAiData [] w = (w, None)"
| "updateLecturerSegments fl lid segs fullAiData ((i, lec) # rest) w =
     (case findIndex (\<lambda>l. lectureId l = lid) (lecturerLectures lec) of
        None \<Rightarrow> updateLecturerSegments fl lid segs fullAiData rest w
      | Some li \<Rightarrow>
          (case fl (LecturerSave i) of
             Some e \<Rightarrow> (w, Some e)
           | None \<Rightarrow>
               updateLecturerSegments fl lid segs fullAiData rest
                 ((fst w)\<lparr> lecturers := (lecturers (fst w))
                     [i := lec\<lparr> lecturerLectures := (lecturerLectures lec)
                        [li := setSegments segs fullAiData (lecturerLectures lec ! li)] \<rparr>] \<rparr>,
                  snd w @ [LecturerSaved i])))"

text \<open>
  \<open>updateLectureWithSegments\<close>. Its whole body is inside \<open>try\<close>; the \<open>catch\<close> logs the
  error and the function returns normally. The result is the world it leaves and the
  error it logged, if any. \<open>videoId\<close> is accepted and not used.
\<close>

definition updateLectureWithSegments ::
  "dbenv \<Rightarrow> string \<Rightarrow> string option \<Rightarrow> jsval \<Rightarrow> jsval \<Rightarrow> string option \<Rightarrow>
   world \<Rightarrow> world \<times> jserror option" where
  "updateLectureWithSegments env lid cid segments fullAiData videoId w =
     (case (if readyState env \<noteq> CONNECTED_STATE then connectDB_error env else None) of
        Some e \<Rightarrow> (w, Some e)
      | None \<Rightarrow>
          (case transformSegments segments of
             Inl e \<Rightarrow> (w, Some e)
           | Inr lectureSegs \<Rightarrow>
               (case updateCourseSegments (failing env) lid cid lectureSegs fullAiData w of
                  (w1, Some e) \<Rightarrow> (w1, Some e)
                | (w1, None) \<Rightarrow>
                    (case failing env LecturerFind of
                       Some e \<Rightarrow> (w1, Some e)
                     | None \<Rightarrow>
                         updateLecturerSegments (failing env) lid lectureSegs fullAiData
                           (findAll (\<lambda>d. hasLecture lid (lecturerLectures d)) (lecturers (fst w1)))
                           w1))))"

text \<open>
  For stating what the updater leaves: the overwrite applied to an array of
  lectures (the first lecture with the id receives the segments and the metadata),
  and the positions of the Lecturer documents that hold a lecture with the id, in
  the order \<open>Lecturer.find\<close> returns them.
\<close>

definition overwriteIn :: "string \<Rightarrow> segment list \<Rightarrow> jsval \<Rightarrow> lecture list \<Rightarrow> lecture list" where
  "overwriteIn lid segs fullAiData ls =
     (case findIndex (\<lambda>l. lectureId l = lid) ls of
        None \<Rightarrow> ls
      | Some li \<Rightarrow> ls[li := setSegments segs fullAiData (ls ! li)])"

definition overwriteLecturer :: "string \<Rightarrow> segment list \<Rightarrow> jsval \<Rightarrow> lecturer \<Rightarrow> lecturer" where
  "overwriteLecturer lid segs fullAiData doc =
     doc\<lparr> lecturerLectures := overwriteIn lid segs fullAiData (lecturerLectures doc) \<rparr>"

definition overwriteCourses ::
  "string \<Rightarrow> string option \<Rightarrow> segment list \<Rightarrow> jsval \<Rightarrow> course list \<Rightarrow> course list" where
  "overwriteCourses lid cid segs fullAiData cs =
     (case findOne (\<lambda>c. Some (courseId c) = cid) cs of
        None \<Rightarrow> cs
      | Some (ci, c) \<Rightarrow> cs[ci := c\<lparr> lectures := overwriteIn lid segs fullAiData (lectures c) \<rparr>])"

definition matchingLecturers :: "string \<Rightarrow> db \<Rightarrow> nat list" where
  "matchingLecturers lid d =
     filter (\<lambda>i. hasLecture lid (lecturerLectures (lecturers d ! i))) [0..<length (lecturers d)]"

text \<open>
  The Course write of an invocation: the course with the id, when it holds a
  lecture with the id.
\<close>

definition courseWrites :: "string \<Rightarrow> string option \<Rightarrow> db \<Rightarrow> event list" where
  "courseWrites lid cid d =
     (case findOne (\<lambda>c. Some (courseId c) = cid) (courses d) of
        None \<Rightarrow> []
      | Some (ci, c) \<Rightarrow> if hasLecture lid (lectures c) then [CourseSaved ci] else [])"

text \<open>
  The store the spec's \<open>ApplySegments\<close> describes: the overwrite in the course with
  the id and in every Lecturer document.
\<close>

definition applySegmentsSpec :: "string \<Rightarrow> string option \<Rightarrow> segment list \<Rightarrow> jsval \<Rightarrow> db \<Rightarrow> db" where
  "applySegmentsSpec lid cid segs fullAiData d =
     d\<lparr> courses := overwriteCourses lid cid segs fullAiData (courses d),
        lecturers := map (overwriteLecturer lid segs fullAiData) (lecturers d) \<rparr>"

section \<open>Responses\<close>

datatype body =
    ErrorBody string "string option"
  | UploadUrlBody presigned string string
  | CompleteBody string string "json list" bool
  | SegmentsUpdatedBody
  | StreamBody presigned nat

record response =
  status :: nat
  body :: body

definition falsyStr :: "string option \<Rightarrow> bool" where
  "falsyStr s = (s = None \<or> s = Some [])"

text \<open>
  \<open>res.status(500).json({ error: 'Internal Server Error', details: error.message })\<close>,
  the \<open>catch\<close> of \<open>POST /complete\<close> and of \<open>POST /segmentation-complete\<close>.
\<close>

definition internalError :: "jserror \<Rightarrow> response" where
  "internalError e =
     \<lparr> status = 500, body = ErrorBody ''Internal Server Error'' (Some (err_message e)) \<rparr>"

section \<open>The segmentation webhook\<close>

text \<open>
  \<open>segments.length\<close> of a truthy value, as far as its conversion to a string goes:
  an array and a string have a number, a boolean and a number have \<open>undefined\<close>, an
  object has its own property \<open>length\<close> or \<open>undefined\<close>.
\<close>

definition segmentsLengthThrows :: "jsval \<Rightarrow> bool" where
  "segmentsLengthThrows segments =
     (case segments of
        Some (JObj kvs) \<Rightarrow> templateThrows (map_of kvs ''length'')
      | _ \<Rightarrow> False)"

text \<open>
  \<open>POST /segmentation-complete\<close>. The ids of the body are strings when present. After
  the check of the fields the route logs
  \<open>`... for lecture ${lectureId} with ${segments.length} segments`\<close> inside its own
  \<open>try\<close>: when that conversion throws, the \<open>catch\<close> of the route answers 500 and the
  updater is not called. The updater is awaited and cannot throw.
\<close>

definition segmentationComplete ::
  "dbenv \<Rightarrow> string option \<Rightarrow> string option \<Rightarrow> jsval \<Rightarrow> jsval \<Rightarrow> string option \<Rightarrow>
   world \<Rightarrow> response \<times> world" where
  "segmentationComplete env lid cid segments rawAi videoId w =
     (case lid of
        None \<Rightarrow>
          (\<lparr> status = 400,
             body = ErrorBody ''Missing required fields: lectureId, segments'' None \<rparr>, w)
      | Some l \<Rightarrow>
          (if l = [] \<or> \<not> truthy segments
           then (\<lparr> status = 400,
                   body = ErrorBody ''Missing required fields: lectureId, segments'' None \<rparr>, w)
           else if segmentsLengthThrows segments
           then (internalError notPrimitive, w)
           else
             (case updateLectureWithSegments env l cid segments rawAi videoId w of
                (w1, logged) \<Rightarrow> (\<lparr> status = 200, body = SegmentsUpdatedBody \<rparr>, w1))))"

section \<open>The object store client and the AI service\<close>

text \<open>
  What the routes import or call and this repository's sources do not define:
  \<open>BUCKET_NAME\<close>, \<open>getVideoUrl\<close> and \<open>generateVideoKey\<close> of \<open>utils/r2\<close>, the
  keys of the objects the bucket holds (\<open>objectKeys\<close>, which no route reads), the
  presigner (\<open>signError\<close>: the error \<open>getSignedUrl\<close> throws for a command, if any),
  the built-in functions \<open>decodeURIComponent\<close> and \<open>String.prototype.toLowerCase\<close>
  (which follows the Unicode case mapping), the clock, \<open>NODE_ENV\<close>, and the answers
  of the AI service to the attempts of the health check and of the indexing request
  (an answer is the response object, \<open>Inl\<close> a rejected request). Of the response
  object of axios only the properties the route reads are kept; what
  \<open>JSON.stringify\<close> does with the whole object is \<open>stringifyError\<close>: the error it
  throws, if any (under Node the object is circular and it throws). The signed URL
  is kept as what was signed: the command and the expiry.
\<close>

record env =
  BUCKET_NAME :: "string option"
  objectKeys :: "string list"
  getVideoUrl :: "string \<Rightarrow> string"
  generateVideoKey :: "string \<Rightarrow> string \<Rightarrow> string \<Rightarrow> string"
  signError :: "s3command \<Rightarrow> jserror option"
  decodeURIComponent :: "string \<Rightarrow> jserror + string"
  toLowerCase :: "string \<Rightarrow> string"
  stringifyError :: "json \<Rightarrow> jserror option"
  now :: nat
  development :: bool
  healthAttempt :: "nat \<Rightarrow> jserror + json"
  indexAttempt :: "nat \<Rightarrow> jserror + json"

text \<open>
  Modelled from the spec: \<open>generateVideoKey\<close> of \<open>utils/r2\<close>, which is not among the
  sources. The spec gives the key the pattern \<open>{userId}/{lectureId}/{filename}\<close>.
\<close>

definition specVideoKey :: "string \<Rightarrow> string \<Rightarrow> string \<Rightarrow> string" where
  "specVideoKey uid lid filename = uid @ ''/'' @ lid @ ''/'' @ filename"

text \<open>\<open>getSignedUrl(s3Client, command, { expiresIn })\<close>.\<close>

definition getSignedUrl :: "env \<Rightarrow> s3command \<Rightarrow> nat \<Rightarrow> jserror + presigned" where
  "getSignedUrl ev cmd expires =
     (case signError ev cmd of
        Some e \<Rightarrow> Inl e
      | None \<Rightarrow> Inr \<lparr> command = cmd, expiresIn = expires \<rparr>)"

text \<open>
  \<open>tryFlask(fn, label, retries = 2, delayMs = 1000)\<close>: the loop
  \<open>for (let i = 0; i <= retries; i++)\<close>, returning the first answer and \<open>null\<close>
  (\<open>None\<close>) when every attempt threw. \<open>fn i\<close> is the outcome of attempt \<open>i\<close>.
\<close>

function tryFlaskFrom :: "nat \<Rightarrow> (nat \<Rightarrow> jserror + 'a) \<Rightarrow> nat \<Rightarrow> 'a option" where
  "tryFlaskFrom i fn retries =
     (if i \<le> retries
      then (case fn i of Inr r \<Rightarrow> Some r | Inl err \<Rightarrow> tryFlaskFrom (i + 1) fn retries)
      else None)"
  by pat_completeness auto
termination
  by (relation "measure (\<lambda>(i, fn, retries). retries + 1 - i)") auto

definition tryFlask :: "(nat \<Rightarrow> jserror + 'a) \<Rightarrow> 'a option" where
  "tryFlask fn = tryFlaskFrom 0 fn 2"

section \<open>Issuing an upload URL\<close>

definition validExtensions :: "string list" where
  "validExtensions = [''mp4'', ''webm'', ''mov'', ''avi'', ''mkv'']"

text \<open>\<open>s.split(c)\<close> for a one-character separator: never empty.\<close>

fun splitOn :: "char \<Rightarrow> string \<Rightarrow> string list" where
  "splitOn c [] = [[]]"
| "splitOn c (x # xs) =
     (if x = c then [] # splitOn c xs
      else (case splitOn c xs of [] \<Rightarrow> [[x]] | p # ps \<Rightarrow> (x # p) # ps))"

text \<open>\<open>xs.pop()\<close>: the last element, \<open>undefined\<close> on the empty array.\<close>

definition pop :: "'a list \<Rightarrow> 'a option" where
  "pop xs = (case rev xs of [] \<Rightarrow> None | x # _ \<Rightarrow> Some x)"

text \<open>\<open>filename.split('.').pop()?.toLowerCase()\<close>\<close>

definition extensionOf :: "env \<Rightarrow> string \<Rightarrow> string option" where
  "extensionOf ev filename = map_option (toLowerCase ev) (pop (splitOn CHR ''.'' filename))"

text \<open>
  \<open>POST /presigned-url\<close>. The result is the response and the requests made to the
  signer.
\<close>

definition presignedUrl ::
  "env \<Rightarrow> string option \<Rightarrow> string option \<Rightarrow> string option \<Rightarrow> string option \<Rightarrow>
   response \<times> event list" where
  "presignedUrl ev uid lid filename contentType =
     (case (uid, lid, filename) of
        (Some u, Some l, Some f) \<Rightarrow>
          (if u = [] \<or> l = [] \<or> f = []
           then (\<lparr> status = 400,
                   body = ErrorBody ''Missing required fields: userId, lectureId, filename'' None \<rparr>, [])
           else if falsyStr (BUCKET_NAME ev)
           then (\<lparr> status = 500, body = ErrorBody ''R2 bucket configuration missing.'' None \<rparr>, [])
           else
             (case extensionOf ev f of
                None \<Rightarrow>
                  (\<lparr> status = 400,
                     body = ErrorBody ''Invalid file type. Only video files are allowed.'' None \<rparr>, [])
              | Some extension \<Rightarrow>
                  (if extension = [] \<or> extension \<notin> set validExtensions
                   then (\<lparr> status = 400,
                           body = ErrorBody ''Invalid file type. Only video files are allowed.'' None \<rparr>,
                         [])
                   else
                     (let key = generateVideoKey ev u l f;
                          cmd = PutObjectCommand (BUCKET_NAME ev) key
                                  (case contentType of
                                     None \<Rightarrow> ''video/'' @ extension
                                   | Some ct \<Rightarrow> if ct = [] then ''video/'' @ extension else ct)
                      in (case getSignedUrl ev cmd 3600 of
                            Inl e \<Rightarrow>
                              (\<lparr> status = 500,
                                 body = ErrorBody ''Failed to generate upload URL'' None \<rparr>, [])
                          | Inr url \<Rightarrow>
                              (\<lparr> status = 200,
                                 body = UploadUrlBody url key (getVideoUrl ev key) \<rparr>,
                               [UrlSigned url]))))))
      | _ \<Rightarrow>
          (\<lparr> status = 400,
             body = ErrorBody ''Missing required fields: userId, lectureId, filename'' None \<rparr>, []))"

section \<open>Issuing a stream URL\<close>

text \<open>
  \<open>GET /stream/:videoKey\<close>. The route signs a \<open>GetObjectCommand\<close>; it sends no
  request to the object store. Its \<open>catch\<close> answers 404 to an error named
  \<open>NoSuchKey\<close> and 500 to any other.
\<close>

definition streamCatch :: "jserror \<Rightarrow> response" where
  "streamCatch e =
     (if err_name e = ''NoSuchKey''
      then \<lparr> status = 404, body = ErrorBody ''Video not found'' None \<rparr>
      else \<lparr> status = 500, body = ErrorBody ''Failed to generate stream URL'' None \<rparr>)"

definition stream :: "env \<Rightarrow> string \<Rightarrow> response \<times> event list" where
  "stream ev videoKey =
     (if falsyStr (BUCKET_NAME ev)
      then (\<lparr> status = 500, body = ErrorBody ''R2 bucket configuration missing'' None \<rparr>, [])
      else
        (case decodeURIComponent ev videoKey of
           Inl e \<Rightarrow> (streamCatch e, [])
         | Inr decodedKey \<Rightarrow>
             (case getSignedUrl ev (GetObjectCommand (BUCKET_NAME ev) decodedKey) 3600 of
                Inl e \<Rightarrow> (streamCatch e, [])
              | Inr url \<Rightarrow>
                  (\<lparr> status = 200, body = StreamBody url 3600 \<rparr>, [UrlSigned url]))))"


section \<open>Completing an upload\<close>

text \<open>
  Section C of \<open>POST /complete\<close>, as far as it decides \<open>taskIdFromTask\<close>: the health
  check, then the indexing request, each through \<open>tryFlask\<close>. The variable starts
  as \<open>null\<close> and is assigned only from an indexing answer:
  \<open>indexResp?.data?.task_id || indexResp?.task_id || null\<close>. After an answer the
  route logs \<open>`... status: ${indexStatus}, task_id: ${taskIdFromTask}`\<close>, and when the
  task id is falsy it logs \<open>JSON.stringify(indexResp, null, 2)\<close>; a throw of either
  reaches the \<open>catch\<close> of the route.
\<close>

definition startIndexing :: "env \<Rightarrow> jserror + json" where
  "startIndexing ev =
     (case tryFlask (healthAttempt ev) of
        None \<Rightarrow> Inr JNull
      | Some health \<Rightarrow>
          (case tryFlask (indexAttempt ev) of
             None \<Rightarrow> Inr JNull
           | Some indexResp \<Rightarrow>
               (let taskIdFromTask =
                      orDefault
                        (js_or (optProp (optProp (Some indexResp) ''data'') ''task_id'')
                               (optProp (Some indexResp) ''task_id''))
                        JNull;
                    indexStatus =
                      js_or (optProp (optProp (Some indexResp) ''data'') ''status'')
                            (optProp (Some indexResp) ''status'')
                in if templateThrows indexStatus \<or> templateThrows (Some taskIdFromTask)
                   then Inl notPrimitive
                   else if \<not> truthy (Some taskIdFromTask)
                   then (case stringifyError ev indexResp of
                           Some e \<Rightarrow> Inl e
                         | None \<Rightarrow> Inr taskIdFromTask)
                   else Inr taskIdFromTask)))"

text \<open>
  \<open>Object.assign(target, lectureData)\<close>: every property of \<open>lectureData\<close> is copied,
  also the one holding \<open>undefined\<close>.
\<close>

definition objectAssign :: "lecture \<Rightarrow> lecture \<Rightarrow> lecture" where
  "objectAssign target src =
     target\<lparr> lectureId := lectureId src, lectureTitle := lectureTitle src,
             lectureCourseId := lectureCourseId src, videoUrl := videoUrl src,
             createdAt := createdAt src, studentRewindEvents := studentRewindEvents src,
             lectureSegments := lectureSegments src, rawAiMetaData := rawAiMetaData src \<rparr>"

text \<open>"Update existing or push new", the same code for the Course and the Lecturer.\<close>

definition upsertLecture :: "lecture \<Rightarrow> lecture list \<Rightarrow> lecture list" where
  "upsertLecture lectureData ls =
     (case findIndex (\<lambda>l. lectureId l = lectureId lectureData) ls of
        Some i \<Rightarrow> ls[i := objectAssign (ls ! i) lectureData]
      | None \<Rightarrow> ls @ [lectureData])"

definition missingFields :: response where
  "missingFields = \<lparr> status = 400, body = ErrorBody ''Missing required fields'' None \<rparr>"

text \<open>The connection block at the head of the route: the response it ends with, if any.\<close>

definition ensureConnected :: "env \<Rightarrow> dbenv \<Rightarrow> response option" where
  "ensureConnected ev denv =
     (if readyState denv \<noteq> CONNECTED_STATE
      then (case connectDB_error denv of
              Some e \<Rightarrow>
                Some \<lparr> status = 500,
                       body = ErrorBody
                         ''Database connection failed. Please check your MongoDB configuration.''
                         (if development ev then Some (err_message e) else None) \<rparr>
            | None \<Rightarrow>
                (if readyStateAfter denv \<noteq> CONNECTED_STATE
                 then Some \<lparr> status = 500,
                             body = ErrorBody
                               ''Database connection not established. Please try again.'' None \<rparr>
                 else None))
      else None)"

text \<open>
  The object literal \<open>lectureData\<close>, from the normalised segments and \<open>fullAiData\<close>:
  \<open>lectureTitle: lectureTitle || 'Untitled Lecture'\<close>,
  \<open>lectureSegments: lectureSegments.length > 0 ? lectureSegments : undefined\<close>,
  \<open>rawAiMetaData: fullAiData || {}\<close>.
\<close>

definition lectureData ::
  "env \<Rightarrow> string \<Rightarrow> string \<Rightarrow> string option \<Rightarrow> string \<Rightarrow> segment list \<Rightarrow> jsval \<Rightarrow>
   lecture" where
  "lectureData ev l k ttl c lectureSegs fullAiData =
     \<lparr> lectureId = l,
       lectureTitle = (case ttl of None \<Rightarrow> ''Untitled Lecture''
                       | Some t \<Rightarrow> if t = [] then ''Untitled Lecture'' else t),
       lectureCourseId = c,
       videoUrl = getVideoUrl ev k,
       createdAt = now ev,
       studentRewindEvents = [],
       lectureSegments = (if length lectureSegs > 0 then Some lectureSegs else None),
       rawAiMetaData = orDefault fullAiData (JObj []) \<rparr>"

text \<open>
  From \<open>const videoUrl = getVideoUrl(videoKey)\<close> to the response. \<open>segments\<close> and
  \<open>fullAiData\<close> are the locals of the route, which are initialised to \<open>[]\<close> and
  \<open>null\<close> and never assigned.
\<close>

definition persistLecture ::
  "env \<Rightarrow> dbenv \<Rightarrow> string \<Rightarrow> string \<Rightarrow> string \<Rightarrow> string option \<Rightarrow> string \<Rightarrow>
   nat \<Rightarrow> course \<Rightarrow> json \<Rightarrow> world \<Rightarrow> response \<times> world" where
  "persistLecture ev denv u l k ttl c ci crs taskIdFromTask w =
     (let segments = ([] :: json list);
          fullAiData = (Some JNull :: jsval)
      in
      (case mapThrowing normalizeSegment segments of
         Inl e \<Rightarrow> (internalError e, w)
       | Inr lectureSegs \<Rightarrow>
           (let data = lectureData ev l k ttl c lectureSegs fullAiData;
                ok = \<lparr> status = 200,
                       body = CompleteBody
                         (if truthy (Some taskIdFromTask)
                          then ''Upload completed. Video indexing is processing in the background (may take 15+ minutes). Segments will appear automatically when ready.''
                          else ''Upload completed and database updated'')
                         l
                         (if length segments > 0 then segments else [])
                         (truthy (Some taskIdFromTask) \<and> length segments = 0) \<rparr>
            in
            (case failing denv (CourseSave ci) of
               Some e \<Rightarrow> (internalError e, w)
             | None \<Rightarrow>
                 (let w2 = ((fst w)\<lparr> courses := (courses (fst w))
                               [ci := crs\<lparr> lectures := upsertLecture data (lectures crs) \<rparr>] \<rparr>,
                            snd w @ [CourseSaved ci])
                  in
                  (case failing denv LecturerFindOne of
                     Some e \<Rightarrow> (internalError e, w2)
                   | None \<Rightarrow>
                       (case findOne (\<lambda>d. userId d = u) (lecturers (fst w2)) of
                          None \<Rightarrow>
                            (case failing denv LecturerInsert of
                               Some e \<Rightarrow> (internalError e, w2)
                             | None \<Rightarrow>
                                 (ok,
                                  ((fst w2)\<lparr> lecturers := lecturers (fst w2) @
                                      [\<lparr> userId = u, lecturerLectures = [data] \<rparr>] \<rparr>,
                                   snd w2 @ [LecturerCreated])))
                        | Some (li, lec) \<Rightarrow>
                            (case failing denv (LecturerSave li) of
                               Some e \<Rightarrow> (internalError e, w2)
                             | None \<Rightarrow>
                                 (ok,
                                  ((fst w2)\<lparr> lecturers := (lecturers (fst w2))
                                      [li := lec\<lparr> lecturerLectures :=
                                                upsertLecture data (lecturerLectures lec) \<rparr>] \<rparr>,
                                   snd w2 @ [LecturerSaved li]))))))))))"

text \<open>
  Sections A to C: the course and permission check, the signed download URL, the AI
  service, and the segmentation request, which is sent and not awaited. Any throw
  reaches the \<open>catch\<close> of the route, which answers 500.
\<close>

definition verifyAndIndex ::
  "env \<Rightarrow> dbenv \<Rightarrow> string \<Rightarrow> string \<Rightarrow> string \<Rightarrow> string option \<Rightarrow> string \<Rightarrow>
   world \<Rightarrow> response \<times> world" where
  "verifyAndIndex ev denv u l k ttl c w =
     (case failing denv CourseFindOne of
        Some e \<Rightarrow> (internalError e, w)
      | None \<Rightarrow>
          (case findOne (\<lambda>d. courseId d = c) (courses (fst w)) of
             None \<Rightarrow>
               (\<lparr> status = 404, body = ErrorBody (''Course '' @ c @ '' not found.'') None \<rparr>, w)
           | Some (ci, crs) \<Rightarrow>
               (if instructorId crs \<noteq> u
                then (\<lparr> status = 403, body = ErrorBody ''Permission denied'' None \<rparr>, w)
                else
                  (case getSignedUrl ev (GetObjectCommand (BUCKET_NAME ev) k) 3600 of
                     Inl e \<Rightarrow> (internalError e, w)
                   | Inr signedDownloadUrl \<Rightarrow>
                       (case startIndexing ev of
                          Inl e \<Rightarrow> (internalError e, (fst w, snd w @ [UrlSigned signedDownloadUrl]))
                        | Inr taskIdFromTask \<Rightarrow>
                            (let w1 = (fst w,
                                       snd w @ [UrlSigned signedDownloadUrl] @
                                         (if truthy (Some taskIdFromTask)
                                          then [SegmentationRequested taskIdFromTask] else []))
                             in persistLecture ev denv u l k ttl c ci crs taskIdFromTask w1))))))"

text \<open>\<open>POST /complete\<close>. The ids and the key of the body are strings when present.\<close>

definition completeUpload ::
  "env \<Rightarrow> dbenv \<Rightarrow> string option \<Rightarrow> string option \<Rightarrow> string option \<Rightarrow> string option \<Rightarrow>
   string option \<Rightarrow> world \<Rightarrow> response \<times> world" where
  "completeUpload ev denv uid lid vkey ttl cid w =
     (case (uid, lid, vkey, cid) of
        (Some u, Some l, Some k, Some c) \<Rightarrow>
          (if u = [] \<or> l = [] \<or> k = [] \<or> c = []
           then (missingFields, w)
           else (case ensureConnected ev denv of
                   Some r \<Rightarrow> (r, w)
                 | None \<Rightarrow> verifyAndIndex ev denv u l k ttl c w))
      | _ \<Rightarrow> (missingFields, w))"


section \<open>A concrete store and environment\<close>

text \<open>
  The scenario of the end-to-end property: course \<open>C1\<close> of instructor \<open>u1\<close> holding
  lecture \<open>L1\<close>, which two Lecturer documents hold as well; a store in which no
  operation fails; an AI service that is unreachable, or healthy and answering the
  indexing request with \<open>task_id: "t1"\<close>.
\<close>

definition lectureL1 :: lecture where
  "lectureL1 =
     \<lparr> lectureId = ''L1'', lectureTitle = ''Intro'', lectureCourseId = ''C1'',
       videoUrl = ''https://cdn.example/u1/L1/a.mp4'', createdAt = 0,
       studentRewindEvents = [], lectureSegments = None, rawAiMetaData = JObj [] \<rparr>"

definition lectureL0 :: lecture where
  "lectureL0 =
     \<lparr> lectureId = ''L0'', lectureTitle = ''Welcome'', lectureCourseId = ''C1'',
       videoUrl = ''https://cdn.example/u1/L0/w.mp4'', createdAt = 0,
       studentRewindEvents = [], lectureSegments = None, rawAiMetaData = JObj [] \<rparr>"

definition exampleDb :: db where
  "exampleDb =
     \<lparr> courses =
         [\<lparr> courseId = ''C1'', courseName = ''Algebra'', instructorId = ''u1'',
            lectures = [lectureL0, lectureL1] \<rparr>],
       lecturers =
         [\<lparr> userId = ''u1'', lecturerLectures = [lectureL0, lectureL1] \<rparr>,
          \<lparr> userId = ''u2'', lecturerLectures = [lectureL0] \<rparr>,
          \<lparr> userId = ''u3'', lecturerLectures = [lectureL1] \<rparr>] \<rparr>"

definition reliable :: dbenv where
  "reliable =
     \<lparr> readyState = 1, connectDB_error = None, readyStateAfter = 1,
       failing = (\<lambda>op. None) \<rparr>"


definition unreachable :: "nat \<Rightarrow> jserror + json" where
  "unreachable i = Inl (JsError ''Error'' ''connect ECONNREFUSED'')"

definition healthy :: "nat \<Rightarrow> jserror + json" where
  "healthy i = Inr (JObj [(''data'', JObj [(''status'', JStr ''ok'')])])"

definition indexStarted :: "nat \<Rightarrow> jserror + json" where
  "indexStarted i =
     Inr (JObj [(''data'', JObj [(''task_id'', JStr ''t1''), (''status'', JStr ''started'')])])"

text \<open>The segments of the end-to-end scenario.\<close>

definition introSegments :: jsval where
  "introSegments =
     Some (JArr [JObj [(''start'', JNum 0), (''end'', JNum 30), (''title'', JStr ''Intro'')]])"

text \<open>
  The lower-casing of the concrete environment: that of JavaScript on text (in
  UTF-8) whose letters are ASCII or U+212A KELVIN SIGN (the bytes E2 84 AA), which
  JavaScript lower-cases to \<open>k\<close>.
\<close>

definition lowerChar :: "char \<Rightarrow> char" where
  "lowerChar c =
     (case map_of (zip ''ABCDEFGHIJKLMNOPQRSTUVWXYZ'' ''abcdefghijklmnopqrstuvwxyz'') c of
        None \<Rightarrow> c
      | Some l \<Rightarrow> l)"

fun exampleLowerCase :: "string \<Rightarrow> string" where
  "exampleLowerCase (a # b # c # s) =
     (if a = CHR 0xE2 \<and> b = CHR 0x84 \<and> c = CHR 0xAA
      then CHR ''k'' # exampleLowerCase s
      else lowerChar a # exampleLowerCase (b # c # s))"
| "exampleLowerCase (a # s) = lowerChar a # exampleLowerCase s"
| "exampleLowerCase [] = []"

definition exampleEnv :: "(nat \<Rightarrow> jserror + json) \<Rightarrow> (nat \<Rightarrow> jserror + json) \<Rightarrow> env" where
  "exampleEnv health index =
     \<lparr> BUCKET_NAME = Some ''videos'', objectKeys = [],
       getVideoUrl = (\<lambda>key. ''https://cdn.example/'' @ key),
       generateVideoKey = specVideoKey,
       signError = (\<lambda>cmd. None),
       decodeURIComponent = Inr,
       toLowerCase = exampleLowerCase,
       stringifyError = (\<lambda>resp. Some (TypeError ''Converting circular structure to JSON'')),
       now = 0, development = False,
       healthAttempt = health, indexAttempt = index \<rparr>"

section \<open>Normalisation of field-name variants\<close>

lemma normalizeSegment_canonical:
  "normalizeSegment (canonicalSeg v) = Inr (normalForm v)"
  by (cases v; cases "fst v"; cases "fst (snd v)"; cases "fst (snd (snd v))";
      cases "snd (snd (snd v))")
     (simp_all add: normalizeSegment_def js_or_def orDefault_def)

lemma normalizeSegment_alternate:
  "normalizeSegment (alternateSeg v) = Inr (normalForm v)"
  by (cases v; cases "fst v"; cases "fst (snd v)"; cases "fst (snd (snd v))";
      cases "snd (snd (snd v))")
     (simp_all add: normalizeSegment_def js_or_def orDefault_def)

lemma mapThrowing_total:
  "(\<And>x. f (g x) = Inr (h x)) \<Longrightarrow> mapThrowing f (map g xs) = Inr (map h xs)"
  by (induction xs) simp_all

text \<open>
  Claim C4. A list of segments written with the alternate names \<open>startTime\<close>,
  \<open>endTime\<close>, \<open>name\<close> and the list of the same values written with \<open>start\<close>,
  \<open>end\<close>, \<open>title\<close> are normalised to the same records, in which a missing (or
  falsy) value is replaced by \<open>0\<close>, \<open>0\<close>, \<open>'Untitled Segment'\<close> and \<open>''\<close> (so the
  empty object becomes the record of the four defaults); the updater therefore
  does the same with either list.
\<close>

theorem alternate_names_normalize_identically:
  "transformSegments (Some (JArr (map alternateSeg vs))) = Inr (map normalForm vs)
   \<and> transformSegments (Some (JArr (map canonicalSeg vs))) = Inr (map normalForm vs)
   \<and> normalizeSegment (JObj []) =
       Inr \<lparr> start = JNum 0, end_ = JNum 0, title = JStr ''Untitled Segment'', summary = JStr '''' \<rparr>
   \<and> updateLectureWithSegments env lid cid (Some (JArr (map alternateSeg vs))) m v w =
       updateLectureWithSegments env lid cid (Some (JArr (map canonicalSeg vs))) m v w"
proof -
  have alt: "transformSegments (Some (JArr (map alternateSeg vs))) = Inr (map normalForm vs)"
    by (simp add: mapThrowing_total normalizeSegment_alternate)
  have can: "transformSegments (Some (JArr (map canonicalSeg vs))) = Inr (map normalForm vs)"
    by (simp add: mapThrowing_total normalizeSegment_canonical)
  have dflt: "normalizeSegment (JObj []) =
       Inr \<lparr> start = JNum 0, end_ = JNum 0, title = JStr ''Untitled Segment'', summary = JStr '''' \<rparr>"
    by (simp add: normalizeSegment_def orDefault_def js_or_def)
  have upd: "updateLectureWithSegments env lid cid (Some (JArr (map alternateSeg vs))) m v w =
       updateLectureWithSegments env lid cid (Some (JArr (map canonicalSeg vs))) m v w"
    unfolding updateLectureWithSegments_def alt can ..
  from alt can dflt upd show ?thesis by blast
qed

theorem alternate_names_normalize_identically_witness:
  "transformSegments (Some (JArr
      [JObj [(''startTime'', JNum 5), (''endTime'', JNum 30), (''name'', JStr ''Intro'')],
       JObj [(''endTime'', JNum 60)]])) =
   Inr [\<lparr> start = JNum 5, end_ = JNum 30, title = JStr ''Intro'', summary = JStr '''' \<rparr>,
        \<lparr> start = JNum 0, end_ = JNum 60, title = JStr ''Untitled Segment'', summary = JStr '''' \<rparr>]
   \<and> transformSegments (Some (JArr
      [JObj [(''start'', JNum 5), (''end'', JNum 30), (''title'', JStr ''Intro'')],
       JObj [(''end'', JNum 60)]])) =
   Inr [\<lparr> start = JNum 5, end_ = JNum 30, title = JStr ''Intro'', summary = JStr '''' \<rparr>,
        \<lparr> start = JNum 0, end_ = JNum 60, title = JStr ''Untitled Segment'', summary = JStr '''' \<rparr>]"
  using alternate_names_normalize_identically
    [of "[(Some (JNum 5), Some (JNum 30), Some (JStr ''Intro''), None),
          (None, Some (JNum 60), None, None)]"]
  by (simp add: orDefault_def js_or_def)

section \<open>Array searches\<close>

lemma findIndex_Some:
  "findIndex p xs = Some i \<Longrightarrow> i < length xs \<and> p (xs ! i)"
  by (induction xs arbitrary: i) (auto split: if_splits)

lemma findIndex_None_iff:
  "findIndex p xs = None \<longleftrightarrow> (\<forall>x \<in> set xs. \<not> p x)"
  by (induction xs) auto

lemma findIndex_map:
  "findIndex p xs = findIndex (\<lambda>b. b) (map p xs)"
  by (induction xs) auto

lemma findIndex_update_same:
  assumes "i < length xs" "p y = p (xs ! i)"
  shows "findIndex p (xs[i := y]) = findIndex p xs"
proof -
  have "map p (xs[i := y]) = map p xs"
    using assms by (simp add: map_update list_update_same_conv)
  then show ?thesis
    by (metis findIndex_map)
qed

lemma findIndex_append:
  "findIndex p (xs @ ys) =
     (case findIndex p xs of
        Some i \<Rightarrow> Some i
      | None \<Rightarrow> map_option (\<lambda>j. length xs + j) (findIndex p ys))"
  by (induction xs; cases "findIndex p ys") (auto split: option.splits)

lemma findOne_Some:
  "findOne p xs = Some (i, x) \<Longrightarrow> i < length xs \<and> xs ! i = x \<and> p x"
  by (auto simp: findOne_def split: option.splits dest: findIndex_Some)

lemma findOne_update:
  assumes "findOne p xs = Some (i, x)" "p y"
  shows "findOne p (xs[i := y]) = Some (i, y)"
proof -
  from assms(1) have i: "i < length xs" "p (xs ! i)" "findIndex p xs = Some i"
    by (auto simp: findOne_def split: option.splits dest: findIndex_Some)
  then have "findIndex p (xs[i := y]) = Some i"
    using assms(2) by (simp add: findIndex_update_same)
  with i show ?thesis by (simp add: findOne_def)
qed

lemma findOne_append_new:
  assumes "findOne p xs = None" "p y"
  shows "findOne p (xs @ [y]) = Some (length xs, y)"
  using assms by (simp add: findOne_def findIndex_append split: option.splits)


section \<open>Upserting a lecture\<close>

lemma objectAssign_all: "objectAssign target src = src"
  by (simp add: objectAssign_def)

lemma lookup_upsertLecture:
  "lookupLecture (lectureId data) (upsertLecture data ls) = Some data"
proof (cases "findIndex (\<lambda>x. lectureId x = lectureId data) ls")
  case None
  then show ?thesis
    by (simp add: lookupLecture_def upsertLecture_def findIndex_append)
next
  case (Some i)
  then have i: "i < length ls" "lectureId (ls ! i) = lectureId data"
    by (auto dest: findIndex_Some)
  then have "findIndex (\<lambda>x. lectureId x = lectureId data) (ls[i := data]) = Some i"
    using Some by (simp add: findIndex_update_same)
  with i Some show ?thesis
    by (simp add: lookupLecture_def upsertLecture_def objectAssign_all)
qed

lemma lectureData_id: "lectureId (lectureData ev l k ttl c segs ai) = l"
  by (simp add: lectureData_def)

lemma lectureData_empty:
  "lectureSegments (lectureData ev l k ttl c [] (Some JNull)) = None
   \<and> rawAiMetaData (lectureData ev l k ttl c [] (Some JNull)) = JObj []"
  by (simp add: lectureData_def orDefault_def js_or_def)

text \<open>
  What a successful run of the last part of \<open>POST /complete\<close> leaves: the course
  found before is found again and holds the new record under the lecture id, and
  so does the Lecturer document of the caller.
\<close>

lemma persistLecture_ok:
  assumes found: "findOne (\<lambda>d. courseId d = c) (courses (fst w)) = Some (ci, crs)"
    and run: "persistLecture ev denv u l k ttl c ci crs tid w = (r, w')"
    and ok: "status r = 200"
  shows "\<exists>msg crs' j doc.
           r = \<lparr> status = 200, body = CompleteBody msg l [] (truthy (Some tid)) \<rparr>
         \<and> findOne (\<lambda>d. courseId d = c) (courses (fst w')) = Some (ci, crs')
         \<and> lookupLecture l (lectures crs') = Some (lectureData ev l k ttl c [] (Some JNull))
         \<and> findOne (\<lambda>d. userId d = u) (lecturers (fst w')) = Some (j, doc)
         \<and> lookupLecture l (lecturerLectures doc) = Some (lectureData ev l k ttl c [] (Some JNull))"
proof -
  let ?data = "lectureData ev l k ttl c [] (Some JNull)"
  let ?crs' = "crs\<lparr> lectures := upsertLecture ?data (lectures crs) \<rparr>"
  from found have c: "courseId crs = c" by (auto dest: findOne_Some)
  have look: "\<And>ls. lookupLecture l (upsertLecture ?data ls) = Some ?data"
    using lookup_upsertLecture [of ?data] by (simp add: lectureData_id)
  have one: "lookupLecture l [?data] = Some ?data"
    by (simp add: lookupLecture_def lectureData_id)
  have cs: "findOne (\<lambda>d. courseId d = c) ((courses (fst w))[ci := ?crs']) = Some (ci, ?crs')"
    using found c by (intro findOne_update) auto
  show ?thesis
  proof (cases "findOne (\<lambda>d. userId d = u) (lecturers (fst w))")
    case None
    then show ?thesis
      using run ok cs look one
      by (auto simp: persistLecture_def internalError_def findOne_append_new Let_def
          split: option.splits)
  next
    case (Some a)
    obtain j doc where a: "a = (j, doc)" by (cases a)
    from Some a have "userId doc = u" by (auto dest: findOne_Some)
    then have "findOne (\<lambda>d. userId d = u)
        ((lecturers (fst w))[j := doc\<lparr> lecturerLectures := upsertLecture ?data (lecturerLectures doc) \<rparr>])
        = Some (j, doc\<lparr> lecturerLectures := upsertLecture ?data (lecturerLectures doc) \<rparr>)"
      using Some a by (intro findOne_update) auto
    then show ?thesis
      using run ok cs look Some a
      by (auto simp: persistLecture_def internalError_def Let_def split: option.splits)
  qed
qed

lemma persistLecture_succeeds:
  assumes "\<forall>op. failing denv op = None"
  shows "status (fst (persistLecture ev denv u l k ttl c ci crs tid w)) = 200"
  using assms by (auto simp: persistLecture_def Let_def split: option.splits)

section \<open>The retry loop\<close>

lemma tryFlaskFrom_all_fail:
  "(\<forall>j. i \<le> j \<and> j \<le> n \<longrightarrow> isl (fn j)) \<Longrightarrow> tryFlaskFrom i fn n = None"
proof (induction i fn n rule: tryFlaskFrom.induct)
  case (1 i fn retries)
  show ?case
  proof (cases "i \<le> retries")
    case False
    then show ?thesis by simp
  next
    case True
    with "1.prems" have "isl (fn i)" by simp
    then obtain e where e: "fn i = Inl e" by (cases "fn i") auto
    have "tryFlaskFrom (i + 1) fn retries = None"
      using "1.IH" [OF True e] "1.prems" by simp
    with True e show ?thesis by simp
  qed
qed

lemma tryFlask_all_fail:
  "\<forall>i \<le> 2. isl (fn i) \<Longrightarrow> tryFlask fn = None"
  unfolding tryFlask_def by (rule tryFlaskFrom_all_fail) simp

lemma truthy_orDefault: "truthy (Some (orDefault a d)) = (truthy a \<or> truthy (Some d))"
  by (cases a) (auto simp: orDefault_def js_or_def)

lemma startIndexing_truthy_iff:
  assumes "startIndexing ev = Inr tid"
  shows "truthy (Some tid) \<longleftrightarrow>
     (\<exists>health indexResp.
        tryFlask (healthAttempt ev) = Some health
      \<and> tryFlask (indexAttempt ev) = Some indexResp
      \<and> truthy (js_or (optProp (optProp (Some indexResp) ''data'') ''task_id'')
                       (optProp (Some indexResp) ''task_id'')))"
  using assms
  by (auto simp: startIndexing_def truthy_orDefault Let_def split: option.splits if_splits)

section \<open>Completing an upload: results\<close>

text \<open>
  Claim C1. A \<open>CompleteUpload\<close> request carrying its four required fields, for a
  course that exists and belongs to the caller, on a connected store whose
  operations and whose signer do not fail: when the health check of the AI service
  fails at the initial attempt and at both retries, the request is answered with
  status 200 and \<open>indexingInProgress = false\<close>, and afterwards the course and the
  caller's Lecturer document both hold, under the lecture id, the record
  \<open>lectureData\<close>, which carries no segments (\<open>lectureSegments\<close> is written as
  \<open>undefined\<close>).
\<close>

theorem completeUpload_degrades_when_ai_unreachable:
  assumes fields: "u \<noteq> []" "l \<noteq> []" "k \<noteq> []" "c \<noteq> []"
    and conn: "ensureConnected ev denv = None"
    and store: "\<forall>op. failing denv op = None"
    and sign: "\<forall>cmd. signError ev cmd = None"
    and crs: "findOne (\<lambda>x. courseId x = c) (courses d) = Some (ci, crs)" "instructorId crs = u"
    and health: "\<forall>i \<le> 2. isl (healthAttempt ev i)"
  shows "\<exists>msg d' tr' crs' j doc.
           completeUpload ev denv (Some u) (Some l) (Some k) ttl (Some c) (d, tr) =
             (\<lparr> status = 200, body = CompleteBody msg l [] False \<rparr>, (d', tr'))
         \<and> findOne (\<lambda>x. courseId x = c) (courses d') = Some (ci, crs')
         \<and> lookupLecture l (lectures crs') = Some (lectureData ev l k ttl c [] (Some JNull))
         \<and> findOne (\<lambda>x. userId x = u) (lecturers d') = Some (j, doc)
         \<and> lookupLecture l (lecturerLectures doc) = Some (lectureData ev l k ttl c [] (Some JNull))
         \<and> lectureSegments (lectureData ev l k ttl c [] (Some JNull)) = None"
proof -
  have tid: "startIndexing ev = Inr JNull"
    using health by (simp add: startIndexing_def tryFlask_all_fail)
  define w1 where "w1 = (d, tr @ [UrlSigned \<lparr> command = GetObjectCommand (BUCKET_NAME ev) k,
                                              expiresIn = 3600 \<rparr>])"
  have run: "completeUpload ev denv (Some u) (Some l) (Some k) ttl (Some c) (d, tr) =
               persistLecture ev denv u l k ttl c ci crs JNull w1"
    using fields conn store sign crs tid
    by (simp add: completeUpload_def verifyAndIndex_def getSignedUrl_def w1_def)
  obtain r w' where rw: "persistLecture ev denv u l k ttl c ci crs JNull w1 = (r, w')"
    by (cases "persistLecture ev denv u l k ttl c ci crs JNull w1")
  have ok: "status r = 200"
    using persistLecture_succeeds [OF store, of ev u l k ttl c ci crs JNull w1] rw by simp
  have found: "findOne (\<lambda>x. courseId x = c) (courses (fst w1)) = Some (ci, crs)"
    using crs by (simp add: w1_def)
  from persistLecture_ok [OF found rw ok] run rw lectureData_empty [of ev l k ttl c]
  show ?thesis by (cases w') auto
qed

theorem completeUpload_degrades_witness:
  "status (fst (completeUpload (exampleEnv unreachable healthy) reliable
      (Some ''u1'') (Some ''L2'') (Some ''u1/L2/b.mp4'') None (Some ''C1'') (exampleDb, []))) = 200
   \<and> (\<exists>msg. body (fst (completeUpload (exampleEnv unreachable healthy) reliable
      (Some ''u1'') (Some ''L2'') (Some ''u1/L2/b.mp4'') None (Some ''C1'') (exampleDb, []))) =
        CompleteBody msg ''L2'' [] False)"
proof -
  have fields: "''u1'' \<noteq> []" "''L2'' \<noteq> []" "''u1/L2/b.mp4'' \<noteq> []" "''C1'' \<noteq> []"
    by simp_all
  have conn: "ensureConnected (exampleEnv unreachable healthy) reliable = None"
    by (simp add: ensureConnected_def reliable_def CONNECTED_STATE_def)
  have store: "\<forall>op. failing reliable op = None"
    by (simp add: reliable_def)
  have sign: "\<forall>cmd. signError (exampleEnv unreachable healthy) cmd = None"
    by (simp add: exampleEnv_def)
  have crs: "findOne (\<lambda>x. courseId x = ''C1'') (courses exampleDb) = Some (0, hd (courses exampleDb))"
    "instructorId (hd (courses exampleDb)) = ''u1''"
    by (simp_all add: exampleDb_def findOne_def)
  have health: "\<forall>i \<le> 2. isl (healthAttempt (exampleEnv unreachable healthy) i)"
    by (simp add: exampleEnv_def unreachable_def)
  from completeUpload_degrades_when_ai_unreachable
         [OF fields conn store sign crs health, of None "[]"]
  show ?thesis by auto
qed

text \<open>
  Claim C2. A \<open>CompleteUpload\<close> request carrying its four required fields, on a
  connected store whose course lookup answers: when no course has the given id the
  response is 404, when the course found has another \<open>instructorId\<close> than the given
  \<open>userId\<close> the response is 403; in both cases the store and the record of outgoing
  calls are returned unchanged, so nothing was written.
\<close>

theorem completeUpload_rejects_without_writing:
  assumes "u \<noteq> []" "l \<noteq> []" "k \<noteq> []" "c \<noteq> []"
    and "ensureConnected ev denv = None" "failing denv CourseFindOne = None"
  shows "(findOne (\<lambda>d. courseId d = c) (courses (fst w)) = None \<longrightarrow>
            completeUpload ev denv (Some u) (Some l) (Some k) ttl (Some c) w =
              (\<lparr> status = 404, body = ErrorBody (''Course '' @ c @ '' not found.'') None \<rparr>, w))
       \<and> (\<forall>ci crs. findOne (\<lambda>d. courseId d = c) (courses (fst w)) = Some (ci, crs)
              \<and> instructorId crs \<noteq> u \<longrightarrow>
            completeUpload ev denv (Some u) (Some l) (Some k) ttl (Some c) w =
              (\<lparr> status = 403, body = ErrorBody ''Permission denied'' None \<rparr>, w))"
  using assms by (auto simp: completeUpload_def verifyAndIndex_def)

theorem completeUpload_rejects_witness:
  "completeUpload (exampleEnv healthy indexStarted) reliable
      (Some ''u2'') (Some ''L2'') (Some ''u2/L2/b.mp4'') None (Some ''C1'') (exampleDb, []) =
     (\<lparr> status = 403, body = ErrorBody ''Permission denied'' None \<rparr>, (exampleDb, []))
   \<and> completeUpload (exampleEnv healthy indexStarted) reliable
      (Some ''u1'') (Some ''L2'') (Some ''u1/L2/b.mp4'') None (Some ''C9'') (exampleDb, []) =
     (\<lparr> status = 404, body = ErrorBody ''Course C9 not found.'' None \<rparr>, (exampleDb, []))"
proof -
  have conn: "ensureConnected (exampleEnv healthy indexStarted) reliable = None"
    "failing reliable CourseFindOne = None"
    by (simp_all add: ensureConnected_def reliable_def CONNECTED_STATE_def)
  have other: "findOne (\<lambda>x. courseId x = ''C1'') (courses (fst (exampleDb, []))) =
                 Some (0, hd (courses exampleDb))
               \<and> instructorId (hd (courses exampleDb)) \<noteq> ''u2''"
    by (simp add: exampleDb_def findOne_def)
  have absent: "findOne (\<lambda>x. courseId x = ''C9'') (courses (fst (exampleDb, []))) = None"
    by (simp add: exampleDb_def findOne_def)
  have a: "''u2'' \<noteq> []" "''L2'' \<noteq> []" "''u2/L2/b.mp4'' \<noteq> []" "''C1'' \<noteq> []"
    by simp_all
  have b: "''u1'' \<noteq> []" "''L2'' \<noteq> []" "''u1/L2/b.mp4'' \<noteq> []" "''C9'' \<noteq> []"
    by simp_all
  from completeUpload_rejects_without_writing
         [OF a conn, where ttl = None and w = "(exampleDb, [])"] other
       completeUpload_rejects_without_writing
         [OF b conn, where ttl = None and w = "(exampleDb, [])"] absent
  show ?thesis by auto
qed

text \<open>
  Claim C9. Whenever \<open>CompleteUpload\<close> answers 200, the body's \<open>segments\<close> is the
  empty list, the record the course and the caller's Lecturer document hold under
  the lecture id carries no segments (\<open>lectureSegments\<close> is \<open>undefined\<close>) and the
  empty object as \<open>rawAiMetaData\<close>, and \<open>indexingInProgress\<close> is the truthiness of
  \<open>taskIdFromTask\<close> (the value section C ended with, without a throw): it is true
  exactly when the health check and the indexing request were answered and the
  answer carried a truthy \<open>task_id\<close>.
\<close>

theorem completeUpload_success_carries_no_segments:
  assumes run: "completeUpload ev denv uid lid vkey ttl cid (d, tr) = (r, (d', tr'))"
    and ok: "status r = 200"
  shows "\<exists>u l k c msg ci crs' j doc tid.
           uid = Some u \<and> lid = Some l \<and> vkey = Some k \<and> cid = Some c
         \<and> startIndexing ev = Inr tid
         \<and> r = \<lparr> status = 200, body = CompleteBody msg l [] (truthy (Some tid)) \<rparr>
         \<and> findOne (\<lambda>x. courseId x = c) (courses d') = Some (ci, crs')
         \<and> lookupLecture l (lectures crs') = Some (lectureData ev l k ttl c [] (Some JNull))
         \<and> findOne (\<lambda>x. userId x = u) (lecturers d') = Some (j, doc)
         \<and> lookupLecture l (lecturerLectures doc) = Some (lectureData ev l k ttl c [] (Some JNull))
         \<and> lectureSegments (lectureData ev l k ttl c [] (Some JNull)) = None
         \<and> rawAiMetaData (lectureData ev l k ttl c [] (Some JNull)) = JObj []
         \<and> (truthy (Some tid) \<longleftrightarrow>
              (\<exists>health indexResp.
                 tryFlask (healthAttempt ev) = Some health
               \<and> tryFlask (indexAttempt ev) = Some indexResp
               \<and> truthy (js_or (optProp (optProp (Some indexResp) ''data'') ''task_id'')
                                (optProp (Some indexResp) ''task_id''))))"
proof -
  from run ok obtain u l k c where ids: "uid = Some u" "lid = Some l" "vkey = Some k" "cid = Some c"
    by (auto simp: completeUpload_def missingFields_def split: option.splits)
  from run ok ids have v: "verifyAndIndex ev denv u l k ttl c (d, tr) = (r, (d', tr'))"
    by (auto simp: completeUpload_def missingFields_def ensureConnected_def
        split: option.splits if_splits)
  from v ok obtain ci crs where
    found: "findOne (\<lambda>x. courseId x = c) (courses d) = Some (ci, crs)"
    by (cases "findOne (\<lambda>x. courseId x = c) (courses d)")
       (auto simp: verifyAndIndex_def internalError_def split: option.splits)
  from v ok found obtain tid where tid: "startIndexing ev = Inr tid"
    by (cases "startIndexing ev")
       (auto simp: verifyAndIndex_def internalError_def getSignedUrl_def
        split: option.splits if_splits)
  define w1 where "w1 = (d, tr @ [UrlSigned \<lparr> command = GetObjectCommand (BUCKET_NAME ev) k,
                                              expiresIn = 3600 \<rparr>] @
                               (if truthy (Some tid) then [SegmentationRequested tid] else []))"
  from v ok found tid have p: "persistLecture ev denv u l k ttl c ci crs tid w1 = (r, (d', tr'))"
    by (auto simp: verifyAndIndex_def internalError_def getSignedUrl_def Let_def w1_def
        split: option.splits if_splits)
  have found1: "findOne (\<lambda>x. courseId x = c) (courses (fst w1)) = Some (ci, crs)"
    using found by (simp add: w1_def)
  from persistLecture_ok [OF found1 p ok] ids tid lectureData_empty [of ev l k ttl c]
    startIndexing_truthy_iff [OF tid]
  show ?thesis by auto
qed

theorem completeUpload_success_witness:
  "\<exists>msg w'.
     completeUpload (exampleEnv healthy indexStarted) reliable
       (Some ''u1'') (Some ''L1'') (Some ''u1/L1/a.mp4'') None (Some ''C1'') (exampleDb, []) =
     (\<lparr> status = 200, body = CompleteBody msg ''L1'' [] True \<rparr>, w')"
proof -
  obtain r d' tr' where run:
    "completeUpload (exampleEnv healthy indexStarted) reliable
       (Some ''u1'') (Some ''L1'') (Some ''u1/L1/a.mp4'') None (Some ''C1'') (exampleDb, []) =
     (r, (d', tr'))"
    by (metis surj_pair)
  have "status (fst (completeUpload (exampleEnv healthy indexStarted) reliable
       (Some ''u1'') (Some ''L1'') (Some ''u1/L1/a.mp4'') None (Some ''C1'') (exampleDb, []))) = 200"
    by (simp add: completeUpload_def verifyAndIndex_def ensureConnected_def reliable_def
        CONNECTED_STATE_def exampleDb_def findOne_def getSignedUrl_def exampleEnv_def
        persistLecture_def Let_def startIndexing_def tryFlask_def healthy_def indexStarted_def
        orDefault_def js_or_def templateThrows_def)
  with run have ok: "status r = 200" by simp
  have tid: "startIndexing (exampleEnv healthy indexStarted) = Inr (JStr ''t1'')"
    by (simp add: startIndexing_def tryFlask_def exampleEnv_def healthy_def indexStarted_def
        orDefault_def js_or_def templateThrows_def)
  from completeUpload_success_carries_no_segments [OF run ok] run tid
  show ?thesis by auto
qed

text \<open>
  An indexing answer without a \<open>task_id\<close>: the route logs
  \<open>JSON.stringify(indexResp, null, 2)\<close>, which throws on the circular response
  object; the answer is 500 and nothing is saved, the download URL having been
  signed before.
\<close>

lemma completeUpload_without_task_id:
  "completeUpload (exampleEnv healthy healthy) reliable
     (Some ''u1'') (Some ''L1'') (Some ''u1/L1/a.mp4'') None (Some ''C1'') (exampleDb, []) =
   (internalError (TypeError ''Converting circular structure to JSON''),
    (exampleDb,
     [UrlSigned \<lparr> command = GetObjectCommand (Some ''videos'') ''u1/L1/a.mp4'',
                   expiresIn = 3600 \<rparr>]))"
  by (simp add: completeUpload_def verifyAndIndex_def ensureConnected_def reliable_def
      CONNECTED_STATE_def exampleDb_def findOne_def getSignedUrl_def exampleEnv_def
      startIndexing_def tryFlask_def healthy_def orDefault_def js_or_def templateThrows_def
      Let_def)

section \<open>Issuing URLs: results\<close>

text \<open>
  Claim C5. A request for an upload URL with non-empty \<open>userId\<close>, \<open>lectureId\<close> and
  \<open>filename\<close>, a configured bucket, a signer that does not fail, and a filename whose
  lower-cased extension is one of \<open>mp4\<close>, \<open>webm\<close>, \<open>mov\<close>, \<open>avi\<close>, \<open>mkv\<close>, is answered with status
  200; the key is \<open>userId/lectureId/filename\<close> (the key pattern of the spec), and the
  URL is that of a \<open>PutObjectCommand\<close> on this key signed with \<open>expiresIn = 3600\<close>.
\<close>

theorem presignedUrl_allowed_extension:
  assumes "u \<noteq> []" "l \<noteq> []" "f \<noteq> []" "\<not> falsyStr (BUCKET_NAME ev)"
    and "extensionOf ev f = Some x" "x \<in> set validExtensions"
    and "generateVideoKey ev = specVideoKey"
    and "\<forall>cmd. signError ev cmd = None"
  shows "\<exists>contentType.
           presignedUrl ev (Some u) (Some l) (Some f) ct =
           (\<lparr> status = 200,
              body = UploadUrlBody
                \<lparr> command = PutObjectCommand (BUCKET_NAME ev) (u @ ''/'' @ l @ ''/'' @ f) contentType,
                  expiresIn = 3600 \<rparr>
                (u @ ''/'' @ l @ ''/'' @ f)
                (getVideoUrl ev (u @ ''/'' @ l @ ''/'' @ f)) \<rparr>,
            [UrlSigned \<lparr> command = PutObjectCommand (BUCKET_NAME ev) (u @ ''/'' @ l @ ''/'' @ f) contentType,
                  expiresIn = 3600 \<rparr>])"
  using assms
  by (auto simp: presignedUrl_def getSignedUrl_def specVideoKey_def Let_def validExtensions_def
      split: option.splits)

theorem presignedUrl_allowed_witness:
  "\<exists>contentType.
     presignedUrl (exampleEnv healthy indexStarted) (Some ''u1'') (Some ''L1'')
       (Some ''Lecture.One.MP4'') None =
     (\<lparr> status = 200,
        body = UploadUrlBody
          \<lparr> command = PutObjectCommand (Some ''videos'') ''u1/L1/Lecture.One.MP4'' contentType,
            expiresIn = 3600 \<rparr>
          ''u1/L1/Lecture.One.MP4''
          ''https://cdn.example/u1/L1/Lecture.One.MP4'' \<rparr>,
      [UrlSigned
         \<lparr> command = PutObjectCommand (Some ''videos'') ''u1/L1/Lecture.One.MP4'' contentType,
           expiresIn = 3600 \<rparr>])"
proof -
  have fields: "''u1'' \<noteq> []" "''L1'' \<noteq> []" "''Lecture.One.MP4'' \<noteq> []"
    by simp_all
  have bucket: "\<not> falsyStr (BUCKET_NAME (exampleEnv healthy indexStarted))"
    by (simp add: exampleEnv_def falsyStr_def)
  have ext: "extensionOf (exampleEnv healthy indexStarted) ''Lecture.One.MP4'' = Some ''mp4''"
    "''mp4'' \<in> set validExtensions"
    by (simp_all add: extensionOf_def pop_def exampleEnv_def lowerChar_def validExtensions_def)
  have key: "generateVideoKey (exampleEnv healthy indexStarted) = specVideoKey"
    by (simp add: exampleEnv_def)
  have sign: "\<forall>cmd. signError (exampleEnv healthy indexStarted) cmd = None"
    by (simp add: exampleEnv_def)
  from presignedUrl_allowed_extension [OF fields bucket ext key sign, of None]
  show ?thesis by (simp add: exampleEnv_def)
qed

text \<open>
  The refusal the route does make: whenever the lower-cased last piece of the
  filename, split at \<open>.\<close>, is not an allowed extension, the answer is 400 and nothing
  is signed.
\<close>

lemma presignedUrl_rejects_computed_extension:
  assumes "u \<noteq> []" "l \<noteq> []" "f \<noteq> []" "\<not> falsyStr (BUCKET_NAME ev)"
    and "extensionOf ev f \<notin> Some ` set validExtensions"
  shows "presignedUrl ev (Some u) (Some l) (Some f) ct =
           (\<lparr> status = 400,
              body = ErrorBody ''Invalid file type. Only video files are allowed.'' None \<rparr>, [])"
  using assms by (auto simp: presignedUrl_def split: option.splits)

lemma presignedUrl_rejects_txt:
  "presignedUrl (exampleEnv healthy indexStarted) (Some ''u1'') (Some ''L1'') (Some ''notes.txt'') None =
     (\<lparr> status = 400,
        body = ErrorBody ''Invalid file type. Only video files are allowed.'' None \<rparr>, [])"
  by (rule presignedUrl_rejects_computed_extension)
     (simp_all add: exampleEnv_def falsyStr_def extensionOf_def pop_def lowerChar_def
        validExtensions_def)

text \<open>
  \<open>split('.')\<close> never gives an empty array, so for a filename without \<open>.\<close> the whole
  name is taken for the extension, and \<open>toLowerCase\<close> turns U+212A KELVIN SIGN into
  \<open>k\<close>: the name \<open>a.mKv\<close> written with that sign is signed as well.
\<close>

lemma presignedUrl_signs_kelvin_name:
  "status (fst (presignedUrl (exampleEnv healthy indexStarted) (Some ''u1'') (Some ''L1'')
     (Some [CHR ''a'', CHR ''.'', CHR ''m'', CHR 0xE2, CHR 0x84, CHR 0xAA, CHR ''v'']) None)) = 200"
  by (simp add: presignedUrl_def exampleEnv_def falsyStr_def extensionOf_def pop_def lowerChar_def
      validExtensions_def getSignedUrl_def Let_def)

text \<open>
  Claim C6. The filename \<open>mp4\<close> contains no \<open>.\<close> and so has no extension, allowed or
  not; with the required fields present and the bucket configured the route does
  not answer 400 for it: it takes the whole name for the extension, signs a PUT URL
  and answers 200.
\<close>

theorem presignedUrl_signs_dotless_name:
  "CHR ''.'' \<notin> set ''mp4''
   \<and> status (fst (presignedUrl (exampleEnv healthy indexStarted) (Some ''u1'') (Some ''L1'')
        (Some ''mp4'') None)) = 200
   \<and> (\<exists>contentType.
        snd (presignedUrl (exampleEnv healthy indexStarted) (Some ''u1'') (Some ''L1'')
          (Some ''mp4'') None) =
        [UrlSigned \<lparr> command = PutObjectCommand (Some ''videos'')
                                  (generateVideoKey (exampleEnv healthy indexStarted)
                                     ''u1'' ''L1'' ''mp4'')
                                  contentType,
                      expiresIn = 3600 \<rparr>])"
  by (simp add: presignedUrl_def exampleEnv_def falsyStr_def extensionOf_def pop_def lowerChar_def
      validExtensions_def getSignedUrl_def Let_def)

lemma stream_ignores_objects:
  "stream (ev\<lparr> objectKeys := ks \<rparr>) key = stream ev key"
  by (auto simp: stream_def getSignedUrl_def split: sum.splits)

text \<open>
  Claim C8. The stream route signs a \<open>GetObjectCommand\<close> and never asks the object
  store whether the key exists. For a key that no object of the bucket has, with
  the bucket configured and a signer that does not fail, the answer is status 200
  with a signed GET URL and \<open>expiresIn = 3600\<close>, not 404.
\<close>

theorem stream_signs_missing_key:
  "''missing.mp4'' \<notin> set (objectKeys (exampleEnv healthy indexStarted))
   \<and> stream (exampleEnv healthy indexStarted) ''missing.mp4'' =
     (\<lparr> status = 200,
        body = StreamBody
          \<lparr> command = GetObjectCommand (Some ''videos'') ''missing.mp4'', expiresIn = 3600 \<rparr>
          3600 \<rparr>,
      [UrlSigned
         \<lparr> command = GetObjectCommand (Some ''videos'') ''missing.mp4'', expiresIn = 3600 \<rparr>])"
  by (simp add: stream_def exampleEnv_def getSignedUrl_def falsyStr_def)

section \<open>The segmentation webhook: results\<close>


lemma webhook_log_line_throws:
  assumes "l \<noteq> []" "truthy segments" "segmentsLengthThrows segments"
  shows "segmentationComplete env (Some l) cid segments raw vid w = (internalError notPrimitive, w)"
  using assms by (simp add: segmentationComplete_def)




section \<open>The segment persistence updater: results\<close>


lemma lectureId_setSegments: "lectureId (setSegments segs m l) = lectureId l"
  by (simp add: setSegments_def)

lemma setSegments_twice: "setSegments segs m (setSegments segs m l) = setSegments segs m l"
  by (simp add: setSegments_def)

lemma findIndex_overwriteIn:
  "findIndex (\<lambda>l. lectureId l = lid') (overwriteIn lid segs m ls) =
   findIndex (\<lambda>l. lectureId l = lid') ls"
  by (auto simp: overwriteIn_def lectureId_setSegments findIndex_update_same
      split: option.splits dest: findIndex_Some)

lemma hasLecture_overwriteIn:
  "hasLecture lid' (overwriteIn lid segs m ls) = hasLecture lid' ls"
  by (simp add: hasLecture_def findIndex_overwriteIn)

lemma overwriteIn_twice:
  "overwriteIn lid segs m (overwriteIn lid segs m ls) = overwriteIn lid segs m ls"
proof (cases "findIndex (\<lambda>l. lectureId l = lid) ls")
  case None
  then show ?thesis by (simp add: overwriteIn_def)
next
  case (Some li)
  then have li: "li < length ls" by (auto dest: findIndex_Some)
  have "findIndex (\<lambda>l. lectureId l = lid) (overwriteIn lid segs m ls) = Some li"
    using Some by (simp add: findIndex_overwriteIn)
  moreover have "overwriteIn lid segs m ls = ls[li := setSegments segs m (ls ! li)]"
    using Some by (simp add: overwriteIn_def)
  ultimately show ?thesis
    using li by (simp add: overwriteIn_def setSegments_twice)
qed

lemma lookup_overwriteIn:
  assumes "hasLecture lid ls"
  shows "\<exists>lec. lookupLecture lid (overwriteIn lid segs m ls) = Some lec
              \<and> lectureSegments lec = Some segs
              \<and> rawAiMetaData lec = orDefault m (JObj [])"
proof -
  from assms obtain li where li: "findIndex (\<lambda>l. lectureId l = lid) ls = Some li"
    by (auto simp: hasLecture_def)
  then have "li < length ls" by (auto dest: findIndex_Some)
  moreover have "findIndex (\<lambda>l. lectureId l = lid) (overwriteIn lid segs m ls) = Some li"
    using li by (simp add: findIndex_overwriteIn)
  ultimately show ?thesis
    using li by (simp add: lookupLecture_def overwriteIn_def setSegments_def)
qed

text \<open>The "Update Course" block: what it can leave.\<close>

lemma updateCourseSegments_cases:
  assumes run: "updateCourseSegments fl lid cid segs m (d, tr) = ((d', tr'), err)"
  shows "lecturers d' = lecturers d
       \<and> ((d' = d \<and> tr' = tr)
          \<or> (\<exists>ci c. err = None
                \<and> findOne (\<lambda>x. Some (courseId x) = cid) (courses d) = Some (ci, c)
                \<and> hasLecture lid (lectures c)
                \<and> tr' = tr @ [CourseSaved ci]
                \<and> d' = d\<lparr> courses := (courses d)
                          [ci := c\<lparr> lectures := overwriteIn lid segs m (lectures c) \<rparr>] \<rparr>))"
proof (cases "fl CourseFindOne")
  case (Some e)
  with run show ?thesis by (simp add: updateCourseSegments_def)
next
  case noFind: None
  show ?thesis
  proof (cases "findOne (\<lambda>x. Some (courseId x) = cid) (courses d)")
    case None
    with run noFind show ?thesis by (simp add: updateCourseSegments_def)
  next
    case (Some a)
    obtain ci c where a: "a = (ci, c)" by (cases a)
    note found = Some [unfolded a]
    show ?thesis
    proof (cases "findIndex (\<lambda>l. lectureId l = lid) (lectures c)")
      case None
      with run noFind found show ?thesis by (simp add: updateCourseSegments_def)
    next
      case li: (Some li)
      show ?thesis
      proof (cases "fl (CourseSave ci)")
        case (Some e)
        with run noFind found li show ?thesis by (simp add: updateCourseSegments_def)
      next
        case None
        with run noFind found li
        have "err = None" "tr' = tr @ [CourseSaved ci]"
          "d' = d\<lparr> courses := (courses d)
                  [ci := c\<lparr> lectures := overwriteIn lid segs m (lectures c) \<rparr>] \<rparr>"
          by (auto simp: updateCourseSegments_def overwriteIn_def)
        moreover have "hasLecture lid (lectures c)"
          using li by (simp add: hasLecture_def)
        ultimately show ?thesis using found by simp
      qed
    qed
  qed
qed

text \<open>
  Run again on a store with the courses the first run left, the block changes
  nothing and ends the same way.
\<close>

lemma updateCourseSegments_again:
  assumes first: "updateCourseSegments fl lid cid segs m (d, tr) = ((d1, tr1), err)"
    and same: "courses d2 = courses d1"
  shows "\<exists>tr3. updateCourseSegments fl lid cid segs m (d2, tr2) = ((d2, tr3), err)"
proof (cases "fl CourseFindOne")
  case (Some e)
  with first have "err = Some e" by (simp add: updateCourseSegments_def)
  with Some show ?thesis by (simp add: updateCourseSegments_def)
next
  case noFind: None
  show ?thesis
  proof (cases "findOne (\<lambda>x. Some (courseId x) = cid) (courses d)")
    case None
    with first noFind have "err = None" "d1 = d" by (simp_all add: updateCourseSegments_def)
    with None noFind same show ?thesis by (simp add: updateCourseSegments_def)
  next
    case (Some a)
    obtain ci c where a: "a = (ci, c)" by (cases a)
    note found = Some [unfolded a]
    then have c: "ci < length (courses d)" "courses d ! ci = c" "Some (courseId c) = cid"
      by (auto dest: findOne_Some)
    show ?thesis
    proof (cases "findIndex (\<lambda>l. lectureId l = lid) (lectures c)")
      case None
      with first noFind found have "err = None" "d1 = d"
        by (simp_all add: updateCourseSegments_def)
      with None noFind same found show ?thesis by (simp add: updateCourseSegments_def)
    next
      case li: (Some li)
      show ?thesis
      proof (cases "fl (CourseSave ci)")
        case (Some e)
        with first noFind found li have "err = Some e" "d1 = d"
          by (simp_all add: updateCourseSegments_def)
        with Some noFind same found li
        show ?thesis by (simp add: updateCourseSegments_def)
      next
        case None
        let ?c' = "c\<lparr> lectures := overwriteIn lid segs m (lectures c) \<rparr>"
        from first noFind found li None
        have d1: "courses d1 = (courses d)[ci := ?c']" and err: "err = None"
          by (auto simp: updateCourseSegments_def overwriteIn_def)
        have f2: "findOne (\<lambda>x. Some (courseId x) = cid) (courses d2) = Some (ci, ?c')"
          unfolding same d1 using found c by (intro findOne_update) auto
        have li2: "findIndex (\<lambda>l. lectureId l = lid) (lectures ?c') = Some li"
          using li by (simp add: findIndex_overwriteIn)
        have "(lectures ?c')[li := setSegments segs m (lectures ?c' ! li)] =
              overwriteIn lid segs m (lectures ?c')"
          using li2 by (simp add: overwriteIn_def)
        also have "\<dots> = lectures ?c'"
          by (simp add: overwriteIn_twice)
        finally have keep: "?c'\<lparr> lectures := (lectures ?c')
                               [li := setSegments segs m (lectures ?c' ! li)] \<rparr> = ?c'"
          by simp
        have "(courses d2)[ci := ?c'] = courses d2"
          unfolding same d1 using c by simp
        then have "d2\<lparr> courses := (courses d2)[ci := ?c'] \<rparr> = d2" by simp
        with noFind f2 li2 None keep err show ?thesis
          by (simp add: updateCourseSegments_def)
      qed
    qed
  qed
qed


text \<open>The loop over the Lecturer documents: what it can leave.\<close>

lemma lecturer_write:
  assumes "findIndex (\<lambda>l. lectureId l = lid) (lecturerLectures doc) = Some li"
  shows "doc\<lparr> lecturerLectures := (lecturerLectures doc)
            [li := setSegments segs m (lecturerLectures doc ! li)] \<rparr> =
         overwriteLecturer lid segs m doc"
  using assms by (simp add: overwriteLecturer_def overwriteIn_def)

lemma overwriteLecturer_absent:
  assumes "findIndex (\<lambda>l. lectureId l = lid) (lecturerLectures doc) = None"
  shows "overwriteLecturer lid segs m doc = doc"
  using assms by (simp add: overwriteLecturer_def overwriteIn_def)

lemma overwriteLecturer_twice:
  "overwriteLecturer lid segs m (overwriteLecturer lid segs m doc) =
   overwriteLecturer lid segs m doc"
  by (simp add: overwriteLecturer_def overwriteIn_twice)

lemma hasLecture_overwriteLecturer:
  "hasLecture lid' (lecturerLectures (overwriteLecturer lid segs m doc)) =
   hasLecture lid' (lecturerLectures doc)"
  by (simp add: overwriteLecturer_def hasLecture_overwriteIn)

lemma updateLecturerSegments_cases:
  assumes "\<forall>i \<in> set is. i < length (lecturers d) \<and> hasLecture lid (lecturerLectures (L ! i))"
    and "updateLecturerSegments fl lid segs m (map (\<lambda>i. (i, L ! i)) is) (d, tr) = ((d', tr'), err)"
  shows "\<exists>qi ri. is = qi @ ri
       \<and> (\<forall>i \<in> set qi. fl (LecturerSave i) = None)
       \<and> (case ri of [] \<Rightarrow> err = None | i # _ \<Rightarrow> err \<noteq> None \<and> fl (LecturerSave i) = err)
       \<and> tr' = tr @ map LecturerSaved qi
       \<and> d' = d\<lparr> lecturers := lecturers d' \<rparr>
       \<and> length (lecturers d') = length (lecturers d)
       \<and> (\<forall>j < length (lecturers d).
            lecturers d' ! j =
              (if j \<in> set qi then overwriteLecturer lid segs m (L ! j) else lecturers d ! j))"
  using assms
proof (induction "is" arbitrary: d tr)
  case Nil
  then show ?case by simp
next
  case (Cons i "is")
  from Cons.prems(1) have i: "i < length (lecturers d)" "hasLecture lid (lecturerLectures (L ! i))"
    by simp_all
  then obtain li where li: "findIndex (\<lambda>l. lectureId l = lid) (lecturerLectures (L ! i)) = Some li"
    by (auto simp: hasLecture_def)
  show ?case
  proof (cases "fl (LecturerSave i)")
    case (Some e)
    with Cons.prems(2) li have "d' = d" "tr' = tr" "err = Some e" by simp_all
    with Some have "i # is = [] @ (i # is)
       \<and> (\<forall>i \<in> set []. fl (LecturerSave i) = None)
       \<and> (case i # is of [] \<Rightarrow> err = None | i # _ \<Rightarrow> err \<noteq> None \<and> fl (LecturerSave i) = err)
       \<and> tr' = tr @ map LecturerSaved []
       \<and> d' = d\<lparr> lecturers := lecturers d' \<rparr>
       \<and> length (lecturers d') = length (lecturers d)
       \<and> (\<forall>j < length (lecturers d).
            lecturers d' ! j =
              (if j \<in> set [] then overwriteLecturer lid segs m (L ! j) else lecturers d ! j))"
      by simp
    then show ?thesis by blast
  next
    case None
    define d1 where "d1 = d\<lparr> lecturers := (lecturers d)[i := overwriteLecturer lid segs m (L ! i)] \<rparr>"
    have step: "updateLecturerSegments fl lid segs m (map (\<lambda>i. (i, L ! i)) is)
                  (d1, tr @ [LecturerSaved i]) = ((d', tr'), err)"
      using Cons.prems(2) li None lecturer_write [OF li, of segs m]
      by (simp add: d1_def)
    have pre: "\<forall>i \<in> set is. i < length (lecturers d1) \<and> hasLecture lid (lecturerLectures (L ! i))"
      using Cons.prems(1) by (simp add: d1_def)
    from Cons.IH [OF pre step] obtain qi ri where r:
      "is = qi @ ri"
      "\<forall>i \<in> set qi. fl (LecturerSave i) = None"
      "case ri of [] \<Rightarrow> err = None | i # _ \<Rightarrow> err \<noteq> None \<and> fl (LecturerSave i) = err"
      "tr' = (tr @ [LecturerSaved i]) @ map LecturerSaved qi"
      "d' = d1\<lparr> lecturers := lecturers d' \<rparr>"
      "length (lecturers d') = length (lecturers d1)"
      "\<forall>j < length (lecturers d1).
         lecturers d' ! j =
           (if j \<in> set qi then overwriteLecturer lid segs m (L ! j) else lecturers d1 ! j)"
      by blast
    have "i # is = (i # qi) @ ri" using r(1) by simp
    moreover have "\<forall>i \<in> set (i # qi). fl (LecturerSave i) = None" using r(2) None by simp
    moreover have "tr' = tr @ map LecturerSaved (i # qi)" using r(4) by simp
    moreover have "d' = d\<lparr> lecturers := lecturers d' \<rparr>" using r(5) by (simp add: d1_def)
    moreover have "length (lecturers d') = length (lecturers d)" using r(6) by (simp add: d1_def)
    moreover have "\<forall>j < length (lecturers d).
         lecturers d' ! j =
           (if j \<in> set (i # qi) then overwriteLecturer lid segs m (L ! j) else lecturers d ! j)"
      using r(7) i(1) by (auto simp: d1_def nth_list_update)
    ultimately show ?thesis using r(3) by blast
  qed
qed

lemma updateLecturerSegments_settled:
  assumes "\<forall>i \<in> set qi. i < length (lecturers d)
             \<and> overwriteLecturer lid segs m (L ! i) = lecturers d ! i
             \<and> fl (LecturerSave i) = None"
    and "case ri of [] \<Rightarrow> err = None
         | i # _ \<Rightarrow> err \<noteq> None \<and> fl (LecturerSave i) = err
                     \<and> hasLecture lid (lecturerLectures (L ! i))"
  shows "\<exists>tr'. updateLecturerSegments fl lid segs m (map (\<lambda>i. (i, L ! i)) (qi @ ri)) (d, tr) =
               ((d, tr'), err)"
  using assms
proof (induction qi arbitrary: tr)
  case Nil
  show ?case
  proof (cases ri)
    case Nil
    with Nil.prems show ?thesis by simp
  next
    case (Cons i rest)
    with Nil.prems obtain e li where
      "err = Some e" "fl (LecturerSave i) = Some e"
      "findIndex (\<lambda>l. lectureId l = lid) (lecturerLectures (L ! i)) = Some li"
      by (auto simp: hasLecture_def)
    with Cons show ?thesis by simp
  qed
next
  case (Cons i qi)
  from Cons.prems(1) have i: "i < length (lecturers d)"
    "overwriteLecturer lid segs m (L ! i) = lecturers d ! i" "fl (LecturerSave i) = None"
    by simp_all
  have rest: "\<forall>i \<in> set qi. i < length (lecturers d)
             \<and> overwriteLecturer lid segs m (L ! i) = lecturers d ! i
             \<and> fl (LecturerSave i) = None"
    using Cons.prems(1) by simp
  show ?case
  proof (cases "findIndex (\<lambda>l. lectureId l = lid) (lecturerLectures (L ! i))")
    case None
    with Cons.IH [OF rest Cons.prems(2)] show ?thesis by simp
  next
    case (Some li)
    have "d\<lparr> lecturers := (lecturers d)[i := overwriteLecturer lid segs m (L ! i)] \<rparr> = d"
      using i by simp
    with Cons.IH [OF rest Cons.prems(2), of "tr @ [LecturerSaved i]"] Some i(3)
      lecturer_write [OF Some, of segs m]
    show ?thesis by simp
  qed
qed


lemma findAll_matching:
  "findAll (\<lambda>doc. hasLecture lid (lecturerLectures doc)) (lecturers d) =
   map (\<lambda>i. (i, lecturers d ! i)) (matchingLecturers lid d)"
  by (simp add: findAll_def matchingLecturers_def)

lemma matchingLecturers_range:
  "\<forall>i \<in> set (matchingLecturers lid d).
     i < length (lecturers d) \<and> hasLecture lid (lecturerLectures (lecturers d ! i))"
  by (simp add: matchingLecturers_def)

lemma matchingLecturers_cong:
  assumes "length (lecturers d1) = length (lecturers d)"
    and "\<forall>j < length (lecturers d).
           hasLecture lid (lecturerLectures (lecturers d1 ! j)) =
           hasLecture lid (lecturerLectures (lecturers d ! j))"
  shows "matchingLecturers lid d1 = matchingLecturers lid d"
  using assms by (auto simp: matchingLecturers_def intro: filter_cong)

text \<open>The loop, run again on the store it left, changes nothing and ends the same way.\<close>

lemma lecturer_loop_again:
  assumes first: "updateLecturerSegments fl lid segs m
                    (findAll (\<lambda>doc. hasLecture lid (lecturerLectures doc)) (lecturers d)) (d, tr) =
                  ((d1, tr1), err)"
  shows "\<exists>tr3. updateLecturerSegments fl lid segs m
                 (findAll (\<lambda>doc. hasLecture lid (lecturerLectures doc)) (lecturers d1)) (d1, tr2) =
               ((d1, tr3), err)"
proof -
  let ?L = "lecturers d"
  from updateLecturerSegments_cases
         [OF matchingLecturers_range first [unfolded findAll_matching]]
  obtain qi ri where r:
    "matchingLecturers lid d = qi @ ri"
    "\<forall>i \<in> set qi. fl (LecturerSave i) = None"
    "case ri of [] \<Rightarrow> err = None | i # _ \<Rightarrow> err \<noteq> None \<and> fl (LecturerSave i) = err"
    "length (lecturers d1) = length ?L"
    "\<forall>j < length ?L.
       lecturers d1 ! j = (if j \<in> set qi then overwriteLecturer lid segs m (?L ! j) else ?L ! j)"
    by blast
  have has: "\<forall>j < length ?L.
           hasLecture lid (lecturerLectures (lecturers d1 ! j)) =
           hasLecture lid (lecturerLectures (?L ! j))"
    using r(5) by (simp add: hasLecture_overwriteLecturer)
  have same: "matchingLecturers lid d1 = qi @ ri"
    using matchingLecturers_cong [OF r(4) has] r(1) by simp
  have range: "\<forall>i \<in> set (qi @ ri). i < length ?L \<and> hasLecture lid (lecturerLectures (?L ! i))"
    using matchingLecturers_range [of lid d] r(1) by simp
  have settled: "\<forall>i \<in> set qi. i < length (lecturers d1)
             \<and> overwriteLecturer lid segs m (lecturers d1 ! i) = lecturers d1 ! i
             \<and> fl (LecturerSave i) = None"
    using r(2) r(4) r(5) range by (simp add: overwriteLecturer_twice)
  have stop: "case ri of [] \<Rightarrow> err = None
         | i # _ \<Rightarrow> err \<noteq> None \<and> fl (LecturerSave i) = err
                     \<and> hasLecture lid (lecturerLectures (lecturers d1 ! i))"
    using r(3) range has by (cases ri) simp_all
  from updateLecturerSegments_settled [OF settled stop, of tr2]
  show ?thesis by (simp add: findAll_matching same)
qed

text \<open>The updater, run again on the world it left, leaves the same store and logs the same.\<close>

lemma updater_again:
  assumes first: "updateLectureWithSegments env lid cid s m v (d, tr) = ((d1, tr1), logged)"
  shows "\<exists>tr2. updateLectureWithSegments env lid cid s m v (d1, tr1) = ((d1, tr2), logged)"
proof (cases "if readyState env \<noteq> CONNECTED_STATE then connectDB_error env else None")
  case (Some e)
  with first have "logged = Some e" by (simp add: updateLectureWithSegments_def)
  with Some show ?thesis by (simp add: updateLectureWithSegments_def)
next
  case conn: None
  show ?thesis
  proof (cases "transformSegments s")
    case (Inl e)
    with first conn have "logged = Some e" by (simp add: updateLectureWithSegments_def)
    with conn Inl show ?thesis by (simp add: updateLectureWithSegments_def)
  next
    case (Inr segs)
    obtain dc trc ec where course:
      "updateCourseSegments (failing env) lid cid segs m (d, tr) = ((dc, trc), ec)"
      by (metis surj_pair)
    show ?thesis
    proof (cases ec)
      case (Some e)
      with first conn Inr course have r: "d1 = dc" "logged = Some e"
        by (simp_all add: updateLectureWithSegments_def)
      from updateCourseSegments_again [OF course, of d1 tr1] r
      obtain tr3 where "updateCourseSegments (failing env) lid cid segs m (d1, tr1) = ((d1, tr3), ec)"
        by auto
      with conn Inr Some r show ?thesis by (simp add: updateLectureWithSegments_def)
    next
      case courseOk: None
      show ?thesis
      proof (cases "failing env LecturerFind")
        case (Some e)
        with first conn Inr course courseOk have r: "d1 = dc" "logged = Some e"
          by (simp_all add: updateLectureWithSegments_def)
        from updateCourseSegments_again [OF course, of d1 tr1] r
        obtain tr3 where "updateCourseSegments (failing env) lid cid segs m (d1, tr1) = ((d1, tr3), ec)"
          by auto
        with conn Inr Some courseOk r show ?thesis by (simp add: updateLectureWithSegments_def)
      next
        case None
        with first conn Inr course courseOk have loop:
          "updateLecturerSegments (failing env) lid segs m
             (findAll (\<lambda>doc. hasLecture lid (lecturerLectures doc)) (lecturers dc)) (dc, trc) =
           ((d1, tr1), logged)"
          by (simp add: updateLectureWithSegments_def)
        from updateLecturerSegments_cases
               [OF matchingLecturers_range loop [unfolded findAll_matching]]
        have "d1 = dc\<lparr> lecturers := lecturers d1 \<rparr>" by blast
        then have "courses d1 = courses dc"
          by (metis db.select_convs(1) db.surjective db.update_convs(2))
        from updateCourseSegments_again [OF course this, of tr1]
        obtain tr3 where again:
          "updateCourseSegments (failing env) lid cid segs m (d1, tr1) = ((d1, tr3), ec)"
          by auto
        from lecturer_loop_again [OF loop, of tr3]
        obtain tr4 where
          "updateLecturerSegments (failing env) lid segs m
             (findAll (\<lambda>doc. hasLecture lid (lecturerLectures doc)) (lecturers d1)) (d1, tr3) =
           ((d1, tr4), logged)"
          by auto
        with conn Inr again courseOk None show ?thesis
          by (simp add: updateLectureWithSegments_def)
      qed
    qed
  qed
qed

text \<open>
  Claim C3. For every lecture id, course id, segments value, metadata and video id,
  and whatever the store does (the same operations failing in both invocations, or
  none), running the updater a second time on the world the first invocation left
  leaves the store of the first invocation, and logs what the first logged.
\<close>

theorem applySegments_idempotent:
  "fst (fst (updateLectureWithSegments env lid cid s m v
               (fst (updateLectureWithSegments env lid cid s m v w)))) =
   fst (fst (updateLectureWithSegments env lid cid s m v w))
   \<and> snd (updateLectureWithSegments env lid cid s m v
               (fst (updateLectureWithSegments env lid cid s m v w))) =
     snd (updateLectureWithSegments env lid cid s m v w)"
proof -
  obtain d tr where w: "w = (d, tr)" by (cases w)
  obtain d1 tr1 logged where first:
    "updateLectureWithSegments env lid cid s m v (d, tr) = ((d1, tr1), logged)"
    by (metis surj_pair)
  from updater_again [OF first] obtain tr2 where
    "updateLectureWithSegments env lid cid s m v (d1, tr1) = ((d1, tr2), logged)"
    by auto
  with first w show ?thesis by simp
qed


theorem applySegments_idempotent_witness:
  "fst (fst (updateLectureWithSegments reliable ''L1'' (Some ''C1'') introSegments None None
               (fst (updateLectureWithSegments reliable ''L1'' (Some ''C1'') introSegments None None
                  (exampleDb, []))))) =
   fst (fst (updateLectureWithSegments reliable ''L1'' (Some ''C1'') introSegments None None
               (exampleDb, [])))"
  using applySegments_idempotent
    [of reliable "''L1''" "Some ''C1''" introSegments None None "(exampleDb, [])"]
  by simp

lemma matchingLecturers_lecturers:
  "lecturers d1 = lecturers d \<Longrightarrow> matchingLecturers lid d1 = matchingLecturers lid d"
  by (simp add: matchingLecturers_def)

lemma updateCourseSegments_done:
  assumes run: "updateCourseSegments fl lid cid segs m (d, tr) = ((dc, trc), None)"
  shows "dc = d\<lparr> courses := overwriteCourses lid cid segs m (courses d) \<rparr>
       \<and> trc = tr @ courseWrites lid cid d"
proof (cases "findOne (\<lambda>x. Some (courseId x) = cid) (courses d)")
  case None
  with run show ?thesis
    by (auto simp: updateCourseSegments_def overwriteCourses_def courseWrites_def
        split: option.splits)
next
  case (Some a)
  obtain ci c where a: "a = (ci, c)" by (cases a)
  note found = Some [unfolded a]
  then have c: "ci < length (courses d)" "courses d ! ci = c"
    by (auto dest: findOne_Some)
  show ?thesis
  proof (cases "findIndex (\<lambda>l. lectureId l = lid) (lectures c)")
    case None
    then have "overwriteIn lid segs m (lectures c) = lectures c" "\<not> hasLecture lid (lectures c)"
      by (simp_all add: overwriteIn_def hasLecture_def)
    with run found None c show ?thesis
      by (auto simp: updateCourseSegments_def overwriteCourses_def courseWrites_def
          split: option.splits)
  next
    case (Some li)
    then have "hasLecture lid (lectures c)"
      "(lectures c)[li := setSegments segs m (lectures c ! li)] = overwriteIn lid segs m (lectures c)"
      by (simp_all add: overwriteIn_def hasLecture_def)
    with run found Some show ?thesis
      by (auto simp: updateCourseSegments_def overwriteCourses_def courseWrites_def
          split: option.splits)
  qed
qed

lemma lecturer_loop_done:
  assumes loop: "updateLecturerSegments fl lid segs m
                    (findAll (\<lambda>doc. hasLecture lid (lecturerLectures doc)) (lecturers d)) (d, tr) =
                  ((d1, tr1), None)"
  shows "d1 = d\<lparr> lecturers := map (overwriteLecturer lid segs m) (lecturers d) \<rparr>
       \<and> tr1 = tr @ map LecturerSaved (matchingLecturers lid d)"
proof -
  let ?L = "lecturers d"
  from updateLecturerSegments_cases
         [OF matchingLecturers_range loop [unfolded findAll_matching]]
  obtain qi ri where r:
    "matchingLecturers lid d = qi @ ri"
    "case ri of [] \<Rightarrow> (None :: jserror option) = None | i # _ \<Rightarrow> (None :: jserror option) \<noteq> None \<and> fl (LecturerSave i) = None"
    "tr1 = tr @ map LecturerSaved qi"
    "d1 = d\<lparr> lecturers := lecturers d1 \<rparr>"
    "length (lecturers d1) = length ?L"
    "\<forall>j < length ?L.
       lecturers d1 ! j = (if j \<in> set qi then overwriteLecturer lid segs m (?L ! j) else ?L ! j)"
    by blast
  from r(2) have ri: "ri = []" by (cases ri) simp_all
  have "lecturers d1 = map (overwriteLecturer lid segs m) ?L"
  proof (rule nth_equalityI)
    show "length (lecturers d1) = length (map (overwriteLecturer lid segs m) ?L)"
      using r(5) by simp
  next
    fix j assume "j < length (lecturers d1)"
    then have j: "j < length ?L" using r(5) by simp
    show "lecturers d1 ! j = map (overwriteLecturer lid segs m) ?L ! j"
    proof (cases "j \<in> set qi")
      case True
      with r(6) j show ?thesis by simp
    next
      case False
      with r(1) ri have "j \<notin> set (matchingLecturers lid d)" by simp
      with j have "\<not> hasLecture lid (lecturerLectures (?L ! j))"
        by (simp add: matchingLecturers_def)
      then have "overwriteLecturer lid segs m (?L ! j) = ?L ! j"
        by (simp add: hasLecture_def overwriteLecturer_absent)
      with r(6) j False show ?thesis by simp
    qed
  qed
  with r(1) r(3) r(4) ri show ?thesis by simp
qed

text \<open>
  Segments that do not normalise (a value that is not an array, or an array holding
  \<open>null\<close>) throw before the first write: the invocation logs the error and leaves
  the world as it was.
\<close>

lemma updater_skips_on_malformed_segments:
  assumes "transformSegments s = Inl e"
    and "readyState env = CONNECTED_STATE \<or> connectDB_error env = None"
  shows "updateLectureWithSegments env lid cid s m v w = (w, Some e)"
  using assms by (auto simp: updateLectureWithSegments_def)

text \<open>The writes of any invocation, in order.\<close>

lemma updater_writes:
  assumes run: "updateLectureWithSegments env lid cid s m v (d, tr) = ((d', tr'), logged)"
  shows "\<exists>cw qi ri. tr' = tr @ cw @ map LecturerSaved qi
           \<and> (cw = [] \<or> (\<exists>ci. cw = [CourseSaved ci]))
           \<and> matchingLecturers lid d = qi @ ri"
proof -
  have none: "tr' = tr \<Longrightarrow> ?thesis"
    by (intro exI [of _ "[]"] exI [of _ "matchingLecturers lid d"]) simp
  show ?thesis
  proof (cases "if readyState env \<noteq> CONNECTED_STATE then connectDB_error env else None")
    case (Some e)
    with run none show ?thesis by (simp add: updateLectureWithSegments_def)
  next
    case conn: None
    show ?thesis
    proof (cases "transformSegments s")
      case (Inl e)
      with run conn none show ?thesis by (simp add: updateLectureWithSegments_def)
    next
      case (Inr segs)
      obtain dc trc ec where course:
        "updateCourseSegments (failing env) lid cid segs m (d, tr) = ((dc, trc), ec)"
        by (metis surj_pair)
      from updateCourseSegments_cases [OF course]
      obtain cw where cw: "trc = tr @ cw" "cw = [] \<or> (\<exists>ci. cw = [CourseSaved ci])"
        and lec: "lecturers dc = lecturers d"
        by auto
      have early: "tr' = trc \<Longrightarrow> ?thesis"
        using cw by (intro exI [of _ cw] exI [of _ "[]"] exI [of _ "matchingLecturers lid d"]) simp
      show ?thesis
      proof (cases ec)
        case (Some e)
        with run conn Inr course early show ?thesis
          by (simp add: updateLectureWithSegments_def)
      next
        case courseOk: None
        show ?thesis
        proof (cases "failing env LecturerFind")
          case (Some e)
          with run conn Inr course courseOk early show ?thesis
            by (simp add: updateLectureWithSegments_def)
        next
          case None
          with run conn Inr course courseOk have loop:
            "updateLecturerSegments (failing env) lid segs m
               (findAll (\<lambda>doc. hasLecture lid (lecturerLectures doc)) (lecturers dc)) (dc, trc) =
             ((d', tr'), logged)"
            by (simp add: updateLectureWithSegments_def)
          from updateLecturerSegments_cases
                 [OF matchingLecturers_range loop [unfolded findAll_matching]]
          obtain qi ri where "matchingLecturers lid dc = qi @ ri" "tr' = trc @ map LecturerSaved qi"
            by blast
          with cw matchingLecturers_lecturers [OF lec, of lid] show ?thesis
            by (intro exI [of _ cw] exI [of _ qi] exI [of _ ri]) simp
        qed
      qed
    qed
  qed
qed

text \<open>An invocation that logs no error leaves the store the spec describes.\<close>

lemma updater_done:
  assumes run: "updateLectureWithSegments env lid cid s m v (d, tr) = ((d', tr'), None)"
  shows "\<exists>segs. transformSegments s = Inr segs
           \<and> d' = applySegmentsSpec lid cid segs m d
           \<and> tr' = tr @ courseWrites lid cid d @ map LecturerSaved (matchingLecturers lid d)"
proof -
  from run obtain segs where segs: "transformSegments s = Inr segs"
    by (cases "transformSegments s")
       (auto simp: updateLectureWithSegments_def split: option.splits)
  obtain dc trc ec where course:
    "updateCourseSegments (failing env) lid cid segs m (d, tr) = ((dc, trc), ec)"
    by (metis surj_pair)
  from run segs course have ec: "ec = None"
    by (cases ec) (auto simp: updateLectureWithSegments_def split: option.splits)
  from run segs course ec have loop:
    "updateLecturerSegments (failing env) lid segs m
       (findAll (\<lambda>doc. hasLecture lid (lecturerLectures doc)) (lecturers dc)) (dc, trc) =
     ((d', tr'), None)"
    by (auto simp: updateLectureWithSegments_def split: option.splits)
  from updateCourseSegments_done [OF course [unfolded ec]]
  have dc: "dc = d\<lparr> courses := overwriteCourses lid cid segs m (courses d) \<rparr>"
    "trc = tr @ courseWrites lid cid d"
    by simp_all
  then have lec: "lecturers dc = lecturers d" by simp
  from lecturer_loop_done [OF loop] dc lec matchingLecturers_lecturers [OF lec, of lid]
  have "d' = applySegmentsSpec lid cid segs m d"
    "tr' = tr @ courseWrites lid cid d @ map LecturerSaved (matchingLecturers lid d)"
    by (simp_all add: applySegmentsSpec_def)
  with segs show ?thesis by blast
qed

text \<open>On a connected store in which nothing fails, normalised segments are applied.\<close>

lemma updater_completes:
  assumes conn: "readyState env = CONNECTED_STATE \<or> connectDB_error env = None"
    and store: "\<forall>op. failing env op = None"
    and segs: "transformSegments s = Inr segs"
  shows "snd (updateLectureWithSegments env lid cid s m v (d, tr)) = None"
proof -
  obtain d' tr' logged where run:
    "updateLectureWithSegments env lid cid s m v (d, tr) = ((d', tr'), logged)"
    by (metis surj_pair)
  obtain dc trc ec where course:
    "updateCourseSegments (failing env) lid cid segs m (d, tr) = ((dc, trc), ec)"
    by (metis surj_pair)
  have ec: "ec = None"
    using course store by (auto simp: updateCourseSegments_def split: option.splits prod.splits)
  have conn': "(if readyState env \<noteq> CONNECTED_STATE then connectDB_error env else None) = None"
    using conn by auto
  from run store segs course ec have loop:
    "updateLecturerSegments (failing env) lid segs m
       (findAll (\<lambda>doc. hasLecture lid (lecturerLectures doc)) (lecturers dc)) (dc, trc) =
     ((d', tr'), logged)"
    by (simp add: updateLectureWithSegments_def conn')
  from updateLecturerSegments_cases
         [OF matchingLecturers_range loop [unfolded findAll_matching]]
  obtain ri where
    "case ri of [] \<Rightarrow> logged = None
     | i # _ \<Rightarrow> logged \<noteq> None \<and> failing env (LecturerSave i) = logged"
    by blast
  with store have "logged = None" by (cases ri) auto
  with run show ?thesis by simp
qed


lemma applySegmentsSpec_lecturer:
  assumes "i \<in> set (matchingLecturers lid d)"
  shows "\<exists>lec. lookupLecture lid
                 (lecturerLectures (lecturers (applySegmentsSpec lid cid segs m d) ! i)) = Some lec
              \<and> lectureSegments lec = Some segs
              \<and> rawAiMetaData lec = orDefault m (JObj [])"
proof -
  from assms have i: "i < length (lecturers d)" "hasLecture lid (lecturerLectures (lecturers d ! i))"
    by (simp_all add: matchingLecturers_def)
  then have "lecturerLectures (lecturers (applySegmentsSpec lid cid segs m d) ! i) =
             overwriteIn lid segs m (lecturerLectures (lecturers d ! i))"
    by (simp add: applySegmentsSpec_def overwriteLecturer_def)
  with lookup_overwriteIn [OF i(2), of segs m] show ?thesis by simp
qed

lemma applySegmentsSpec_course:
  assumes "findOne (\<lambda>x. Some (courseId x) = cid) (courses d) = Some (ci, c)"
    and "hasLecture lid (lectures c)"
  shows "\<exists>lec. lookupLecture lid (lectures (courses (applySegmentsSpec lid cid segs m d) ! ci)) = Some lec
              \<and> lectureSegments lec = Some segs
              \<and> rawAiMetaData lec = orDefault m (JObj [])"
proof -
  from assms(1) have "ci < length (courses d)" by (auto dest: findOne_Some)
  with assms(1) have "lectures (courses (applySegmentsSpec lid cid segs m d) ! ci) =
                      overwriteIn lid segs m (lectures c)"
    by (simp add: applySegmentsSpec_def overwriteCourses_def)
  with lookup_overwriteIn [OF assms(2), of segs m] show ?thesis by simp
qed

text \<open>
  Claim C7. The writes an invocation of the updater adds are at most one Course
  save followed by Lecturer saves, which follow the order of the Lecturer documents
  holding a lecture with the id and are a prefix of them: no Lecturer is saved
  before the Course. An invocation that logs no error saved every such Lecturer
  document, after the course when the course has the lecture, and left the store in
  which the course and each of these Lecturer documents hold, under the lecture id,
  the normalised segments and the metadata. On a store that does not fail, an
  invocation whose segments normalise logs no error.
\<close>

theorem applySegments_course_first_then_every_lecturer:
  assumes run: "updateLectureWithSegments env lid cid s m v (d, tr) = ((d', tr'), logged)"
  shows "(\<exists>cw qi ri. tr' = tr @ cw @ map LecturerSaved qi
            \<and> (cw = [] \<or> (\<exists>ci. cw = [CourseSaved ci]))
            \<and> matchingLecturers lid d = qi @ ri)
       \<and> (logged = None \<longrightarrow>
            (\<exists>segs. transformSegments s = Inr segs
               \<and> d' = applySegmentsSpec lid cid segs m d
               \<and> tr' = tr @ courseWrites lid cid d @ map LecturerSaved (matchingLecturers lid d)
               \<and> (\<forall>i \<in> set (matchingLecturers lid d).
                     \<exists>lec. lookupLecture lid (lecturerLectures (lecturers d' ! i)) = Some lec
                         \<and> lectureSegments lec = Some segs
                         \<and> rawAiMetaData lec = orDefault m (JObj []))
               \<and> (\<forall>ci c. findOne (\<lambda>x. Some (courseId x) = cid) (courses d) = Some (ci, c)
                       \<and> hasLecture lid (lectures c) \<longrightarrow>
                     (\<exists>lec. lookupLecture lid (lectures (courses d' ! ci)) = Some lec
                         \<and> lectureSegments lec = Some segs
                         \<and> rawAiMetaData lec = orDefault m (JObj [])))))
       \<and> ((readyState env = CONNECTED_STATE \<or> connectDB_error env = None)
            \<and> (\<forall>op. failing env op = None)
            \<and> (\<exists>segs. transformSegments s = Inr segs) \<longrightarrow> logged = None)"
proof -
  have a: "\<exists>cw qi ri. tr' = tr @ cw @ map LecturerSaved qi
            \<and> (cw = [] \<or> (\<exists>ci. cw = [CourseSaved ci]))
            \<and> matchingLecturers lid d = qi @ ri"
    by (rule updater_writes [OF run])
  have b: "\<exists>segs. transformSegments s = Inr segs
               \<and> d' = applySegmentsSpec lid cid segs m d
               \<and> tr' = tr @ courseWrites lid cid d @ map LecturerSaved (matchingLecturers lid d)
               \<and> (\<forall>i \<in> set (matchingLecturers lid d).
                     \<exists>lec. lookupLecture lid (lecturerLectures (lecturers d' ! i)) = Some lec
                         \<and> lectureSegments lec = Some segs
                         \<and> rawAiMetaData lec = orDefault m (JObj []))
               \<and> (\<forall>ci c. findOne (\<lambda>x. Some (courseId x) = cid) (courses d) = Some (ci, c)
                       \<and> hasLecture lid (lectures c) \<longrightarrow>
                     (\<exists>lec. lookupLecture lid (lectures (courses d' ! ci)) = Some lec
                         \<and> lectureSegments lec = Some segs
                         \<and> rawAiMetaData lec = orDefault m (JObj [])))"
    if "logged = None"
  proof -
    from updater_done [OF run [unfolded that]] obtain segs where segs:
      "transformSegments s = Inr segs" "d' = applySegmentsSpec lid cid segs m d"
      "tr' = tr @ courseWrites lid cid d @ map LecturerSaved (matchingLecturers lid d)"
      by blast
    then show ?thesis
      using applySegmentsSpec_lecturer [of _ lid d cid segs m]
        applySegmentsSpec_course [of cid d _ _ lid segs m]
      by blast
  qed
  have c: "logged = None"
    if "(readyState env = CONNECTED_STATE \<or> connectDB_error env = None)
        \<and> (\<forall>op. failing env op = None) \<and> (\<exists>segs. transformSegments s = Inr segs)"
    using that updater_completes [of env s _ lid cid m v d tr] run by auto
  from a b c show ?thesis by blast
qed

theorem applySegments_course_first_witness:
  "snd (fst (updateLectureWithSegments reliable ''L1'' (Some ''C1'') introSegments None None
               (exampleDb, []))) =
     [CourseSaved 0, LecturerSaved 0, LecturerSaved 2]
   \<and> map (\<lambda>doc. map_option lectureSegments (lookupLecture ''L1'' (lecturerLectures doc)))
         (lecturers (fst (fst (updateLectureWithSegments reliable ''L1'' (Some ''C1'') introSegments
               None None (exampleDb, []))))) =
     [Some (Some [\<lparr> start = JNum 0, end_ = JNum 30, title = JStr ''Intro'', summary = JStr '''' \<rparr>]),
      None,
      Some (Some [\<lparr> start = JNum 0, end_ = JNum 30, title = JStr ''Intro'', summary = JStr '''' \<rparr>])]"
proof -
  obtain d' tr' logged where run:
    "updateLectureWithSegments reliable ''L1'' (Some ''C1'') introSegments None None (exampleDb, []) =
       ((d', tr'), logged)"
    by (metis surj_pair)
  have segs: "transformSegments introSegments =
      Inr [\<lparr> start = JNum 0, end_ = JNum 30, title = JStr ''Intro'', summary = JStr '''' \<rparr>]"
    by (simp add: introSegments_def normalizeSegment_def js_or_def orDefault_def)
  have env: "(readyState reliable = CONNECTED_STATE \<or> connectDB_error reliable = None)
        \<and> (\<forall>op. failing reliable op = None)"
    by (simp add: reliable_def)
  have cw: "courseWrites ''L1'' (Some ''C1'') exampleDb = [CourseSaved 0]"
    by (simp add: courseWrites_def exampleDb_def findOne_def hasLecture_def lectureL0_def
        lectureL1_def)
  have ml: "matchingLecturers ''L1'' exampleDb = [0, 2]"
    by (simp add: matchingLecturers_def exampleDb_def hasLecture_def lectureL0_def lectureL1_def)
  have spec: "map (\<lambda>doc. map_option lectureSegments (lookupLecture ''L1'' (lecturerLectures doc)))
         (lecturers (applySegmentsSpec ''L1'' (Some ''C1'')
            [\<lparr> start = JNum 0, end_ = JNum 30, title = JStr ''Intro'', summary = JStr '''' \<rparr>]
            None exampleDb)) =
     [Some (Some [\<lparr> start = JNum 0, end_ = JNum 30, title = JStr ''Intro'', summary = JStr '''' \<rparr>]),
      None,
      Some (Some [\<lparr> start = JNum 0, end_ = JNum 30, title = JStr ''Intro'', summary = JStr '''' \<rparr>])]"
    by (simp add: applySegmentsSpec_def overwriteLecturer_def overwriteIn_def exampleDb_def
        lookupLecture_def lectureL0_def lectureL1_def setSegments_def)
  note all = applySegments_course_first_then_every_lecturer [OF run]
  from all [THEN conjunct2, THEN conjunct2] env segs
  have ok: "logged = None" by simp
  from all [THEN conjunct2, THEN conjunct1] ok segs
  have "d' = applySegmentsSpec ''L1'' (Some ''C1'')
            [\<lparr> start = JNum 0, end_ = JNum 30, title = JStr ''Intro'', summary = JStr '''' \<rparr>]
            None exampleDb"
    "tr' = [] @ courseWrites ''L1'' (Some ''C1'') exampleDb @
           map LecturerSaved (matchingLecturers ''L1'' exampleDb)"
    by auto
  with run cw ml spec show ?thesis by simp
qed

end
